theory Spec2Isabelle
  imports Main "HOL-Library.AList"
begin

unbundle bit_operations_syntax

section \<open>Python values, exceptions and builtins used by the sampler\<close>

text \<open>
  The exceptions that the sampler code can meet.  \<open>ComError\<close> stands for
  \<^verbatim>\<open>pywintypes.com_error\<close>, the only exception that \<^verbatim>\<open>_query\<close> catches;
  \<open>ValueError\<close> is the only one that the coercion in \<^verbatim>\<open>_parse_results\<close> catches.
\<close>

datatype py_error = IndexError | KeyError | TypeError | ValueError | OverflowError | ComError

text \<open>
  The values that a WMI property or qualifier can carry once pywin32 has converted the
  COM variant.  The type \<open>'f\<close> is the type of 64-bit floats, which is kept abstract.
\<close>

datatype 'f pyval = PNone | PBool bool | PInt int | PFloat 'f | PStr string

text \<open>
  Python's \<^verbatim>\<open>float(x)\<close>.  The conversion of an integer and the parser of a string are
  parameters (they are Python's, not the sampler's); what \<^verbatim>\<open>float\<close> does with each kind of
  argument is fixed: \<^verbatim>\<open>float(None)\<close> raises \<^verbatim>\<open>TypeError\<close>, a string that is not a number
  raises \<^verbatim>\<open>ValueError\<close>, an integer too large for a double raises \<^verbatim>\<open>OverflowError\<close>.
\<close>

record 'f float_builtin =
  float_of_int :: "int \<Rightarrow> 'f option"
  float_of_str :: "string \<Rightarrow> 'f option"

fun py_float :: "'f float_builtin \<Rightarrow> 'f pyval \<Rightarrow> py_error + 'f" where
  "py_float fb PNone = Inl TypeError"
| "py_float fb (PBool b) =
     (case float_of_int fb (if b then 1 else 0) of None \<Rightarrow> Inl OverflowError | Some x \<Rightarrow> Inr x)"
| "py_float fb (PInt i) =
     (case float_of_int fb i of None \<Rightarrow> Inl OverflowError | Some x \<Rightarrow> Inr x)"
| "py_float fb (PFloat x) = Inr x"
| "py_float fb (PStr s) =
     (case float_of_str fb s of None \<Rightarrow> Inl ValueError | Some x \<Rightarrow> Inr x)"

text \<open>\<^verbatim>\<open>str.lower\<close> and \<^verbatim>\<open>str.upper\<close> on ASCII letters.\<close>

definition lower_char :: "char \<Rightarrow> char" where
  "lower_char c =
     (case map_of (zip ''ABCDEFGHIJKLMNOPQRSTUVWXYZ'' ''abcdefghijklmnopqrstuvwxyz'') c of
        None \<Rightarrow> c | Some d \<Rightarrow> d)"

definition upper_char :: "char \<Rightarrow> char" where
  "upper_char c =
     (case map_of (zip ''abcdefghijklmnopqrstuvwxyz'' ''ABCDEFGHIJKLMNOPQRSTUVWXYZ'') c of
        None \<Rightarrow> c | Some d \<Rightarrow> d)"

definition lower :: "string \<Rightarrow> string" where
  "lower s = map lower_char s"

definition upper :: "string \<Rightarrow> string" where
  "upper s = map upper_char s"

text \<open>\<^verbatim>\<open>sub in s\<close> on strings.\<close>

fun str_contains :: "string \<Rightarrow> string \<Rightarrow> bool" where
  "str_contains sub [] = (sub = [])"
| "str_contains sub (c # cs) = (take (length sub) (c # cs) = sub \<or> str_contains sub cs)"

text \<open>\<^verbatim>\<open>sep.join(xs)\<close>.\<close>

fun join :: "string \<Rightarrow> string list \<Rightarrow> string" where
  "join sep [] = []"
| "join sep [x] = x"
| "join sep (x # y # ys) = x @ sep @ join sep (y # ys)"

section \<open>The filters and their \<^verbatim>\<open>WHERE\<close> clause\<close>

text \<open>
  \<^verbatim>\<open>_format_filter\<close> consumes its argument: \<^verbatim>\<open>fltr.pop()\<close> removes the last mapping
  from the list and \<^verbatim>\<open>f.popitem()\<close> removes an entry from that mapping.  Both objects
  belong to the caller, so the filters are modelled by reference: a filter list is a
  list of addresses, and a store gives the entries of the mapping at each address, in
  insertion order.
\<close>

type_synonym pydict = "(string \<times> string) list"
type_synonym dict_store = "nat \<Rightarrow> pydict"

text \<open>\<^verbatim>\<open>list.pop()\<close>: the last element and the list without it; \<open>None\<close> on the empty list.\<close>

definition list_pop :: "'a list \<Rightarrow> ('a \<times> 'a list) option" where
  "list_pop xs = (if xs = [] then None else Some (last xs, butlast xs))"

text \<open>
  \<^verbatim>\<open>dict.popitem()\<close>: an entry and the mapping without it; \<open>None\<close> on the empty mapping
  (Python raises \<^verbatim>\<open>KeyError\<close>).  A mapping with one key has one entry to give; for a
  larger one the entry taken here is the last one inserted.
\<close>

definition popitem :: "pydict \<Rightarrow> ((string \<times> string) \<times> pydict) option" where
  "popitem d = (if d = [] then None else Some (last d, butlast d))"

definition squote :: string where
  "squote = [CHR 0x27]"

text \<open>\<^verbatim>\<open>"{property} = '{constant}'".format(property=prop, constant=value)\<close>\<close>

definition format_conjunct :: "string \<Rightarrow> string \<Rightarrow> string" where
  "format_conjunct prop val = prop @ '' = '' @ squote @ val @ squote"

text \<open>
  The inner function \<^verbatim>\<open>build_where_clause\<close>.  It returns the exception or the clause,
  together with the store and the list as the call leaves them.
\<close>

function build_where_clause ::
  "dict_store \<Rightarrow> nat list \<Rightarrow> (py_error + string) \<times> dict_store \<times> nat list" where
  "build_where_clause h fltr =
     (case list_pop fltr of
        None \<Rightarrow> (Inl IndexError, h, fltr)
      | Some (f, fltr1) \<Rightarrow>
          (case popitem (h f) of
             None \<Rightarrow> (Inl KeyError, h, fltr1)
           | Some ((prop, val), d1) \<Rightarrow>
               (let h1 = h(f := d1) in
                if length fltr1 = 0 then (Inr (format_conjunct prop val), h1, fltr1)
                else (case build_where_clause h1 fltr1 of
                        (Inl e, h2, fltr2) \<Rightarrow> (Inl e, h2, fltr2)
                      | (Inr clause, h2, fltr2) \<Rightarrow>
                          (Inr (format_conjunct prop val @ '' AND '' @ clause), h2, fltr2)))))"
  by pat_completeness auto
termination
  by (relation "measure (\<lambda>(h, fltr). length fltr)")
     (auto simp: list_pop_def split: if_splits)

declare build_where_clause.simps [simp del]

text \<open>\<^verbatim>\<open>WMISampler._format_filter\<close> (a static method).\<close>

definition format_filter ::
  "dict_store \<Rightarrow> nat list \<Rightarrow> (py_error + string) \<times> dict_store \<times> nat list" where
  "format_filter h filters =
     (if filters = [] then (Inr [], h, filters)
      else (case build_where_clause h filters of
              (Inl e, h1, fs1) \<Rightarrow> (Inl e, h1, fs1)
            | (Inr clause, h1, fs1) \<Rightarrow> (Inr ('' WHERE '' @ clause), h1, fs1)))"

section \<open>The case-insensitive dictionary\<close>

text \<open>
  \<^verbatim>\<open>CaseInsensitiveDict\<close> lower-cases the key in \<^verbatim>\<open>__setitem__\<close>, \<^verbatim>\<open>__getitem__\<close>,
  \<^verbatim>\<open>__contains__\<close> and \<^verbatim>\<open>get\<close>.  Its entries are kept as an association list with
  distinct (lower-cased) keys, a new key going to the end.
\<close>

type_synonym 'v ci_dict = "(string \<times> 'v) list"

definition ci_setitem :: "string \<Rightarrow> 'v \<Rightarrow> 'v ci_dict \<Rightarrow> 'v ci_dict" where
  "ci_setitem key v d = AList.update (lower key) v d"

definition ci_contains :: "string \<Rightarrow> 'v ci_dict \<Rightarrow> bool" where
  "ci_contains key d = (map_of d (lower key) \<noteq> None)"

definition ci_get :: "string \<Rightarrow> 'v ci_dict \<Rightarrow> 'v option" where
  "ci_get key d = map_of d (lower key)"

section \<open>The WMI service, the logger and the process-wide state\<close>

text \<open>
  What the service returns for one row: the properties of \<^verbatim>\<open>res.Properties_\<close>, each with
  its \<^verbatim>\<open>Name\<close>, its \<^verbatim>\<open>Value\<close> and the (name, value) pairs of its \<^verbatim>\<open>Qualifiers_\<close>.
\<close>

record 'f wmi_property =
  Name :: string
  Value :: "'f pyval"
  Qualifiers :: "(string \<times> 'f pyval) list"

type_synonym 'f wmi_object = "'f wmi_property list"

text \<open>One parsed row: a \<^verbatim>\<open>CaseInsensitiveDict\<close> from property name to value.\<close>

type_synonym 'f item = "'f pyval ci_dict"

text \<open>
  What the service does during one call of \<^verbatim>\<open>_query\<close>: whether a connection can be
  made (asked only when none is cached), and what \<^verbatim>\<open>ExecQuery\<close> returns, \<open>None\<close>
  standing for a raised \<^verbatim>\<open>pywintypes.com_error\<close>.
\<close>

datatype conn_outcome = DispatchFails | ConnectFails | Connects

record 'f outcome =
  connecting :: conn_outcome
  exec_result :: "'f wmi_object list option"

text \<open>
  The messages given to the logger, by the format string of the source:
  \<^item> \<open>InitialSample\<close>: \<^verbatim>\<open>Querying for initial sample for raw performance counter.\<close>
  \<^item> \<open>SampleMsg\<close>: \<^verbatim>\<open>Sample: {0}\<close>
  \<^item> \<open>UsingCached\<close>: \<^verbatim>\<open>Using cached connection (host=.., namespace=.., username=..).\<close>
  \<^item> \<open>Connecting\<close>: \<^verbatim>\<open>Connecting to WMI server (host=.., namespace=.., username=..).\<close>
  \<^item> \<open>QueryingWMI\<close>: \<^verbatim>\<open>Querying WMI: {0}\<close>
  \<^item> \<open>CachingCounterType\<close>: \<^verbatim>\<open>Caching property qualifier CounterType: {class_name}.{property_names} = {counter_type}\<close>
  \<^item> \<open>CounterTypeNotFound\<close>: \<^verbatim>\<open>CounterType qualifier not found for {class_name}.{property_names}\<close>
  \<^item> \<open>FailedQuery\<close>: \<^verbatim>\<open>Failed to execute WMI query (%s)\<close>
\<close>

datatype 'f log_msg =
    InitialSample
  | SampleMsg "'f item list option"
  | UsingCached string string string
  | Connecting string string string
  | QueryingWMI string
  | CachingCounterType string string "'f pyval"
  | CounterTypeNotFound string string
  | FailedQuery string

text \<open>
  Every call that leaves the sampler: to the logger, and to COM
  (\<^verbatim>\<open>Dispatch\<close>, \<^verbatim>\<open>locator.ConnectServer\<close>, \<^verbatim>\<open>connection.ExecQuery\<close>, and the read of
  \<^verbatim>\<open>wmi_property.Qualifiers_\<close>).
\<close>

datatype 'f event =
    Debug "'f log_msg"
  | Warning "'f log_msg"
  | Dispatch string
  | ConnectServer string string string string
  | ExecQuery nat string nat
  | ReadQualifiers string

text \<open>
  The state outside a sampler: the class attributes \<^verbatim>\<open>_wmi_locators\<close> and
  \<^verbatim>\<open>_wmi_connections\<close>, shared by all samplers; the identity of the next COM object
  created; the store of the filter mappings; the calls made so far, oldest first.
\<close>

record 'f world =
  wmi_locators :: "string \<rightharpoonup> nat"
  wmi_connections :: "string \<rightharpoonup> nat"
  next_obj :: nat
  dicts :: dict_store
  trace :: "'f event list"

definition emit :: "'f event \<Rightarrow> 'f world \<Rightarrow> 'f world" where
  "emit e w = w\<lparr>trace := trace w @ [e]\<rparr>"

section \<open>The sampler\<close>

record 'f sampler =
  host :: string
  namespace :: string
  username :: string
  password :: string
  is_raw_perf_class :: bool
  class_name :: string
  property_names :: "string list"
  filters :: "nat list"
  property_counter_types :: "'f pyval ci_dict option"
  current_sample :: "'f item list option"
  previous_sample :: "'f item list option"

text \<open>\<^verbatim>\<open>WMISampler.__init__\<close> (the logger is the trace of the world).\<close>

definition init_sampler ::
  "string \<Rightarrow> string list \<Rightarrow> nat list \<Rightarrow> string \<Rightarrow> string \<Rightarrow> string \<Rightarrow> string \<Rightarrow> 'f sampler" where
  "init_sampler cls props fltrs h ns user pw =
     (let raw = str_contains ''_PERFRAWDATA_'' (upper cls) in
      \<lparr> host = h, namespace = ns, username = user, password = pw,
        is_raw_perf_class = raw,
        class_name = cls,
        property_names =
          (if raw then props @ [''Timestamp_Sys100NS'', ''Frequency_Sys100NS''] else props),
        filters = fltrs,
        property_counter_types = None,
        current_sample = None,
        previous_sample = None \<rparr>)"

subsection \<open>\<^verbatim>\<open>_get_connection\<close>\<close>

definition connection_key :: "'f sampler \<Rightarrow> string" where
  "connection_key s = host s @ '':'' @ namespace s @ '':'' @ username s"

definition get_connection ::
  "conn_outcome \<Rightarrow> 'f sampler \<Rightarrow> 'f world \<Rightarrow> (py_error + nat) \<times> 'f world" where
  "get_connection co s w =
     (let key = connection_key s in
      case wmi_connections w key of
        Some connection \<Rightarrow>
          (Inr connection, emit (Debug (UsingCached (host s) (namespace s) (username s))) w)
      | None \<Rightarrow>
          (let w1 = emit (Debug (Connecting (host s) (namespace s) (username s))) w;
               w2 = emit (Dispatch ''WbemScripting.SWbemLocator'') w1 in
           if co = DispatchFails then (Inl ComError, w2)
           else
             (let locator = next_obj w2;
                  w3 = w2\<lparr>wmi_locators := (wmi_locators w2)(key \<mapsto> locator),
                          next_obj := locator + 1\<rparr>;
                  w4 = emit (ConnectServer (host s) (namespace s) (username s) (password s)) w3 in
              if co = ConnectFails then (Inl ComError, w4)
              else
                (let connection = next_obj w4;
                     w5 = w4\<lparr>wmi_connections := (wmi_connections w4)(key \<mapsto> connection),
                             next_obj := connection + 1\<rparr>
                 in (Inr connection, w5)))))"

subsection \<open>\<^verbatim>\<open>_parse_results\<close>\<close>

text \<open>
  The body of \<^verbatim>\<open>if should_get_qualifier_type:\<close> for one property, \<open>d\<close> being the
  current \<^verbatim>\<open>property_counter_types\<close>.  The dictionary comprehension over
  \<^verbatim>\<open>Qualifiers_\<close> keeps the last value of a repeated name.
\<close>

definition get_qualifier_type ::
  "'f wmi_property \<Rightarrow> 'f pyval ci_dict \<Rightarrow> 'f sampler \<times> 'f world \<Rightarrow> 'f sampler \<times> 'f world" where
  "get_qualifier_type p d sw =
     (let (s, w) = sw;
          w1 = emit (ReadQualifiers (Name p)) w;
          qualifiers = map_of (rev (Qualifiers p)) in
      case qualifiers ''CounterType'' of
        Some counter_type \<Rightarrow>
          (s\<lparr>property_counter_types := Some (ci_setitem (Name p) counter_type d)\<rparr>,
           emit (Debug (CachingCounterType (class_name s) (Name p) counter_type)) w1)
      | None \<Rightarrow>
          (s, emit (Debug (CounterTypeNotFound (class_name s) (Name p))) w1))"

text \<open>
  The body of \<^verbatim>\<open>for wmi_property in res.Properties_\<close>.  The test
  \<^verbatim>\<open>wmi_property.Name not in self.property_counter_types\<close> is evaluated only when
  \<^verbatim>\<open>includes_qualifiers\<close> holds.  Of the exceptions of \<^verbatim>\<open>float\<close>, only
  \<^verbatim>\<open>ValueError\<close> is caught.
\<close>

definition parse_property ::
  "'f float_builtin \<Rightarrow> bool \<Rightarrow> 'f wmi_property \<Rightarrow> 'f item \<times> 'f sampler \<times> 'f world \<Rightarrow>
     (py_error + unit) \<times> 'f item \<times> 'f sampler \<times> 'f world" where
  "parse_property fb includes_qualifiers p st =
     (let (item, s, w) = st in
      case (if includes_qualifiers then
              (case property_counter_types s of
                 None \<Rightarrow> Inl TypeError
               | Some d \<Rightarrow>
                   if \<not> ci_contains (Name p) d then Inr (get_qualifier_type p d (s, w))
                   else Inr (s, w))
            else Inr (s, w)) of
        Inl e \<Rightarrow> (Inl e, item, s, w)
      | Inr (s1, w1) \<Rightarrow>
          (case py_float fb (Value p) of
             Inr x \<Rightarrow> (Inr (), ci_setitem (Name p) (PFloat x) item, s1, w1)
           | Inl e \<Rightarrow>
               if e = ValueError then (Inr (), ci_setitem (Name p) (Value p) item, s1, w1)
               else (Inl e, item, s1, w1)))"

fun parse_properties ::
  "'f float_builtin \<Rightarrow> bool \<Rightarrow> 'f wmi_property list \<Rightarrow> 'f item \<times> 'f sampler \<times> 'f world \<Rightarrow>
     (py_error + unit) \<times> 'f item \<times> 'f sampler \<times> 'f world" where
  "parse_properties fb inc [] st = (Inr (), st)"
| "parse_properties fb inc (p # ps) st =
     (case parse_property fb inc p st of
        (Inl e, st1) \<Rightarrow> (Inl e, st1)
      | (Inr u, st1) \<Rightarrow> parse_properties fb inc ps st1)"

text \<open>The body of \<^verbatim>\<open>for res in raw_results\<close>, up to \<^verbatim>\<open>results.append(item)\<close>.\<close>

definition parse_object ::
  "'f float_builtin \<Rightarrow> bool \<Rightarrow> 'f wmi_object \<Rightarrow> 'f sampler \<times> 'f world \<Rightarrow>
     (py_error + 'f item) \<times> 'f sampler \<times> 'f world" where
  "parse_object fb inc res sw =
     (let (s, w) = sw;
          item0 = foldl (\<lambda>item prop_name. ci_setitem prop_name PNone item) [] (property_names s) in
      case parse_properties fb inc res (item0, s, w) of
        (Inl e, item, s1, w1) \<Rightarrow> (Inl e, s1, w1)
      | (Inr u, item, s1, w1) \<Rightarrow> (Inr item, s1, w1))"

fun parse_objects ::
  "'f float_builtin \<Rightarrow> bool \<Rightarrow> 'f wmi_object list \<Rightarrow> 'f item list \<Rightarrow> 'f sampler \<times> 'f world \<Rightarrow>
     (py_error + 'f item list) \<times> 'f sampler \<times> 'f world" where
  "parse_objects fb inc [] results sw = (Inr results, sw)"
| "parse_objects fb inc (res # rest) results sw =
     (case parse_object fb inc res sw of
        (Inl e, sw1) \<Rightarrow> (Inl e, sw1)
      | (Inr item, sw1) \<Rightarrow> parse_objects fb inc rest (results @ [item]) sw1)"

definition parse_results ::
  "'f float_builtin \<Rightarrow> 'f wmi_object list \<Rightarrow> bool \<Rightarrow> 'f sampler \<times> 'f world \<Rightarrow>
     (py_error + 'f item list) \<times> 'f sampler \<times> 'f world" where
  "parse_results fb raw_results includes_qualifiers sw =
     parse_objects fb includes_qualifiers raw_results [] sw"

subsection \<open>\<^verbatim>\<open>_query\<close>\<close>

definition flag_return_immediately :: nat where "flag_return_immediately = 0x10"
definition flag_forward_only :: nat where "flag_forward_only = 0x20"
definition flag_use_amended_qualifiers :: nat where "flag_use_amended_qualifiers = 0x20000"

text \<open>The \<^verbatim>\<open>except pywintypes.com_error\<close> branch: a warning, and the empty list.\<close>

definition query_failed ::
  "string \<Rightarrow> 'f sampler \<times> 'f world \<Rightarrow> (py_error + 'f item list) \<times> 'f sampler \<times> 'f world" where
  "query_failed wql sw = (let (s, w) = sw in (Inr [], s, emit (Warning (FailedQuery wql)) w))"

text \<open>
  \<^verbatim>\<open>_query\<close>, for one behaviour \<open>oc\<close> of the service.  \<^verbatim>\<open>_format_filter\<close> runs before
  the \<^verbatim>\<open>try\<close> and works on \<^verbatim>\<open>self.filters\<close> itself, so what it leaves of the list is
  the sampler's filter list from then on.
\<close>

definition query ::
  "'f float_builtin \<Rightarrow> 'f outcome \<Rightarrow> 'f sampler \<times> 'f world \<Rightarrow>
     (py_error + 'f item list) \<times> 'f sampler \<times> 'f world" where
  "query fb oc sw =
     (let (s, w) = sw;
          formated_property_names = join '','' (property_names s) in
      case format_filter (dicts w) (filters s) of
        (Inl e, h1, fs1) \<Rightarrow> (Inl e, s\<lparr>filters := fs1\<rparr>, w\<lparr>dicts := h1\<rparr>)
      | (Inr clause, h1, fs1) \<Rightarrow>
          (let s1 = s\<lparr>filters := fs1\<rparr>;
               w1 = w\<lparr>dicts := h1\<rparr>;
               wql = ''Select '' @ formated_property_names @ '' from '' @ class_name s @ clause;
               w2 = emit (Debug (QueryingWMI wql)) w1;
               query_flags = flag_return_immediately OR flag_forward_only;
               includes_qualifiers = (property_counter_types s1 = None);
               s2 = (if includes_qualifiers then s1\<lparr>property_counter_types := Some []\<rparr> else s1);
               query_flags2 =
                 (if includes_qualifiers then query_flags OR flag_use_amended_qualifiers
                  else query_flags) in
           case get_connection (connecting oc) s2 w2 of
             (Inl e, w3) \<Rightarrow>
               if e = ComError then query_failed wql (s2, w3) else (Inl e, s2, w3)
           | (Inr connection, w3) \<Rightarrow>
               (let w4 = emit (ExecQuery connection wql query_flags2) w3 in
                case exec_result oc of
                  None \<Rightarrow> query_failed wql (s2, w4)
                | Some raw_results \<Rightarrow>
                    (case parse_results fb raw_results includes_qualifiers (s2, w4) of
                       (Inl e, s3, w5) \<Rightarrow>
                         if e = ComError then query_failed wql (s3, w5) else (Inl e, s3, w5)
                     | (Inr results, s3, w5) \<Rightarrow> (Inr results, s3, w5)))))"

subsection \<open>\<^verbatim>\<open>sample\<close> and the reading interface\<close>

text \<open>\<^verbatim>\<open>not self.previous_sample\<close>: true of \<^verbatim>\<open>None\<close> and of the empty list.\<close>

definition falsy :: "'a list option \<Rightarrow> bool" where
  "falsy x = (case x of None \<Rightarrow> True | Some xs \<Rightarrow> xs = [])"

text \<open>
  \<^verbatim>\<open>sample\<close>.  \<open>oc0\<close> is the behaviour of the service during the query for the initial
  sample (when there is one), \<open>oc\<close> its behaviour during the query that follows.  An
  exception leaves the sampler as it was when raised.
\<close>

definition sample ::
  "'f float_builtin \<Rightarrow> 'f outcome \<Rightarrow> 'f outcome \<Rightarrow> 'f sampler \<times> 'f world \<Rightarrow>
     (py_error + unit) \<times> 'f sampler \<times> 'f world" where
  "sample fb oc0 oc sw =
     (let (s, w) = sw in
      case (if is_raw_perf_class s \<and> falsy (previous_sample s) then
              (case query fb oc0 (s, emit (Debug InitialSample) w) of
                 (Inl e, s1, w1) \<Rightarrow> (Inl e, s1, w1)
               | (Inr results, s1, w1) \<Rightarrow> (Inr (), s1\<lparr>current_sample := Some results\<rparr>, w1))
            else (Inr (), s, w)) of
        (Inl e, s1, w1) \<Rightarrow> (Inl e, s1, w1)
      | (Inr u, s1, w1) \<Rightarrow>
          (let s2 = s1\<lparr>previous_sample := current_sample s1\<rparr> in
           case query fb oc (s2, w1) of
             (Inl e, s3, w3) \<Rightarrow> (Inl e, s3, w3)
           | (Inr results, s3, w3) \<Rightarrow>
               (let s4 = s3\<lparr>current_sample := Some results\<rparr> in
                (Inr (), s4, emit (Debug (SampleMsg (current_sample s4))) w3))))"

text \<open>\<^verbatim>\<open>__len__\<close>: \<^verbatim>\<open>len(None)\<close> raises \<^verbatim>\<open>TypeError\<close>.\<close>

definition sampler_len :: "'f sampler \<Rightarrow> py_error + nat" where
  "sampler_len s =
     (case current_sample s of None \<Rightarrow> Inl TypeError | Some xs \<Rightarrow> Inr (length xs))"

text \<open>
  \<^verbatim>\<open>__iter__\<close>, as the list of the objects it yields.  In the first branch the loop
  variables \<^verbatim>\<open>current_wmi_object, previous_wmi_object\<close> are bound, in this order, to the
  pairs of \<^verbatim>\<open>izip(self.previous_sample, self.current_sample)\<close>, and the first one is
  yielded.  Iterating over \<^verbatim>\<open>None\<close> raises \<^verbatim>\<open>TypeError\<close>.
\<close>

definition sampler_iter :: "'f sampler \<Rightarrow> py_error + 'f item list" where
  "sampler_iter s =
     (if is_raw_perf_class s then
        (case previous_sample s of
           None \<Rightarrow> Inl TypeError
         | Some prev \<Rightarrow>
             (case current_sample s of
                None \<Rightarrow> Inl TypeError
              | Some cur \<Rightarrow>
                  Inr (map (\<lambda>(current_wmi_object, previous_wmi_object). current_wmi_object)
                         (zip prev cur))))
      else
        (case current_sample s of None \<Rightarrow> Inl TypeError | Some cur \<Rightarrow> Inr cur))"

text \<open>
  \<^verbatim>\<open>__str__\<close>: \<^verbatim>\<open>str(self.current_sample)\<close>.  Python's rendering of a list of
  dictionaries is the parameter \<open>str_list\<close>; \<^verbatim>\<open>str(None)\<close> is \<^verbatim>\<open>'None'\<close>.
\<close>

definition sampler_str :: "('f item list \<Rightarrow> string) \<Rightarrow> 'f sampler \<Rightarrow> py_error + string" where
  "sampler_str str_list s =
     (case current_sample s of None \<Rightarrow> Inr ''None'' | Some xs \<Rightarrow> Inr (str_list xs))"

section \<open>Notions used to state the properties\<close>

text \<open>Kinds of calls in a trace.\<close>

fun is_query_start :: "'f event \<Rightarrow> bool" where
  "is_query_start (Debug (QueryingWMI wql)) = True"
| "is_query_start e = False"

fun is_exec_query :: "'f event \<Rightarrow> bool" where
  "is_exec_query (ExecQuery c wql fl) = True"
| "is_exec_query e = False"

fun is_connect_server :: "'f event \<Rightarrow> bool" where
  "is_connect_server (ConnectServer h ns u pw) = True"
| "is_connect_server e = False"

fun is_warning :: "'f event \<Rightarrow> bool" where
  "is_warning (Warning m) = True"
| "is_warning e = False"

fun is_qualifier_read :: "'f event \<Rightarrow> bool" where
  "is_qualifier_read (ReadQualifiers n) = True"
| "is_qualifier_read e = False"

text \<open>A read of the qualifiers of the property whose lower-cased name is \<open>k\<close>.\<close>

fun reads_property :: "string \<Rightarrow> 'f event \<Rightarrow> bool" where
  "reads_property k (ReadQualifiers n) = (lower n = k)"
| "reads_property k e = False"

definition has_counter_type :: "'f wmi_property \<Rightarrow> bool" where
  "has_counter_type p = (map_of (rev (Qualifiers p)) ''CounterType'' \<noteq> None)"

text \<open>
  Whenever the service returns rows during the call, each property in them whose
  lower-cased name is \<open>k\<close> carries a \<^verbatim>\<open>CounterType\<close> qualifier.
\<close>

definition counter_in_rows :: "string \<Rightarrow> 'f outcome \<Rightarrow> bool" where
  "counter_in_rows k oc =
     (case exec_result oc of
        None \<Rightarrow> True
      | Some raw_results \<Rightarrow>
          list_all (list_all (\<lambda>p. lower (Name p) = k \<longrightarrow> has_counter_type p)) raw_results)"

text \<open>
  The \<^verbatim>\<open>try\<close> block of \<^verbatim>\<open>_query\<close>, run by the sampler \<open>s\<close> in the world \<open>w\<close> while the
  service behaves as \<open>oc\<close>, raises \<^verbatim>\<open>com_error\<close>: there is no cached connection and none
  can be made, or \<^verbatim>\<open>ExecQuery\<close> raises.
\<close>

definition com_error_raised :: "'f outcome \<Rightarrow> 'f sampler \<Rightarrow> 'f world \<Rightarrow> bool" where
  "com_error_raised oc s w =
     ((wmi_connections w (connection_key s) = None \<and> connecting oc \<noteq> Connects) \<or>
      exec_result oc = None)"

text \<open>A filter mapping with exactly one key, and the conjunct it stands for.\<close>

definition single_key :: "pydict \<Rightarrow> bool" where
  "single_key d = (length d = 1)"

definition conjunct_of :: "pydict \<Rightarrow> string" where
  "conjunct_of d = format_conjunct (fst (last d)) (snd (last d))"

text \<open>
  Successive calls of \<^verbatim>\<open>sample\<close> on one sampler, one pair of service behaviours for
  each; a call that raises leaves the state it had reached to the next call.
\<close>

fun samples ::
  "'f float_builtin \<Rightarrow> ('f outcome \<times> 'f outcome) list \<Rightarrow> 'f sampler \<times> 'f world \<Rightarrow>
     'f sampler \<times> 'f world" where
  "samples fb [] sw = sw"
| "samples fb ((oc0, oc) # ocs) sw = samples fb ocs (snd (sample fb oc0 oc sw))"

text \<open>
  In every state that \<^verbatim>\<open>__init__\<close> and \<^verbatim>\<open>sample\<close> produce, a previous sample is
  there only when a current one is.
\<close>

definition sampler_inv :: "'f sampler \<Rightarrow> bool" where
  "sampler_inv s = (previous_sample s \<noteq> None \<longrightarrow> current_sample s \<noteq> None)"

text \<open>
  The Item that the specification gives for one row: every declared property set to
  \<^verbatim>\<open>None\<close>, then, for each property the service returned, in order, its value as a
  float when \<^verbatim>\<open>float\<close> accepts it and unchanged otherwise, under its lower-cased name.
\<close>

definition stored_value :: "'f float_builtin \<Rightarrow> 'f pyval \<Rightarrow> 'f pyval" where
  "stored_value fb v = (case py_float fb v of Inr x \<Rightarrow> PFloat x | Inl e \<Rightarrow> v)"

definition item_of :: "'f float_builtin \<Rightarrow> string list \<Rightarrow> 'f wmi_object \<Rightarrow> 'f item" where
  "item_of fb names res =
     foldl (\<lambda>item p. ci_setitem (Name p) (stored_value fb (Value p)) item)
       (foldl (\<lambda>item prop_name. ci_setitem prop_name PNone item) [] names) res"

text \<open>The rows that \<^verbatim>\<open>ExecQuery\<close> returns, none when it raises.\<close>

definition rows_of :: "'f outcome \<Rightarrow> 'f wmi_object list" where
  "rows_of oc = (case exec_result oc of None \<Rightarrow> [] | Some raw_results \<Rightarrow> raw_results)"

text \<open>
  The sample that a query is to give: the Items of the rows returned, in order, and the
  empty sample when the query fails with a \<^verbatim>\<open>com_error\<close>.
\<close>

definition query_items ::
  "'f float_builtin \<Rightarrow> 'f outcome \<Rightarrow> 'f sampler \<Rightarrow> 'f world \<Rightarrow> 'f item list" where
  "query_items fb oc s w =
     (if com_error_raised oc s w then []
      else map (item_of fb (property_names s)) (rows_of oc))"

text \<open>
  In the rows that the service returns during the call, no property whose lower-cased
  name is \<open>k\<close> carries a \<^verbatim>\<open>CounterType\<close> qualifier; and the number of properties of
  that name in these rows.
\<close>

definition no_counter_in_rows :: "string \<Rightarrow> 'f outcome \<Rightarrow> bool" where
  "no_counter_in_rows k oc =
     list_all (list_all (\<lambda>p. lower (Name p) = k \<longrightarrow> \<not> has_counter_type p)) (rows_of oc)"

definition occurrences :: "string \<Rightarrow> 'f outcome \<Rightarrow> nat" where
  "occurrences k oc = length (filter (\<lambda>p. lower (Name p) = k) (concat (rows_of oc)))"

subsection \<open>Concrete inputs\<close>

text \<open>A stand-in for the floats: integers, no string being a number.\<close>

definition int_floats :: "int float_builtin" where
  "int_floats = \<lparr> float_of_int = Some, float_of_str = (\<lambda>s. None) \<rparr>"

definition world0 :: "int world" where
  "world0 = \<lparr> wmi_locators = Map.empty, wmi_connections = Map.empty, next_obj = 0,
              dicts = (\<lambda>a. []), trace = [] \<rparr>"

definition no_render :: "int item list \<Rightarrow> string" where
  "no_render xs = []"

definition failing :: "int outcome" where
  "failing = \<lparr> connecting = Connects, exec_result = None \<rparr>"

definition returning :: "int wmi_object list \<Rightarrow> int outcome" where
  "returning raw_results = \<lparr> connecting = Connects, exec_result = Some raw_results \<rparr>"

definition disk_sampler :: "int sampler" where
  "disk_sampler = init_sampler ''Win32_LogicalDisk'' [''Name''] [] ''localhost'' ''ns'' [] []"

definition raw_sampler :: "int sampler" where
  "raw_sampler =
     init_sampler ''Win32_PerfRawData_PerfOS_System'' [''X''] [] ''localhost'' ''ns'' [] []"

definition name_property :: "string \<Rightarrow> int wmi_property" where
  "name_property v = \<lparr> Name = ''Name'', Value = PStr v, Qualifiers = [] \<rparr>"

definition x_property :: "int pyval \<Rightarrow> int wmi_property" where
  "x_property v = \<lparr> Name = ''X'', Value = v, Qualifiers = [(''CounterType'', PInt 65536)] \<rparr>"

definition null_property :: "int wmi_property" where
  "null_property = \<lparr> Name = ''Name'', Value = PNone, Qualifiers = [] \<rparr>"

definition x_item :: "int \<Rightarrow> int item" where
  "x_item n =
     [(''x'', PFloat n), (''timestamp_sys100ns'', PNone), (''frequency_sys100ns'', PNone)]"

text \<open>
  A first \<^verbatim>\<open>sample()\<close> on a raw performance class, the service returning one row with
  \<^verbatim>\<open>X = 1\<close> and then one row with \<^verbatim>\<open>X = 2\<close>; a first \<^verbatim>\<open>sample()\<close> on a class that is
  not raw, the service returning the disks \<^verbatim>\<open>C:\<close> and \<^verbatim>\<open>D:\<close>; the same, the service
  returning one row whose \<^verbatim>\<open>Name\<close> is NULL; and a first \<^verbatim>\<open>sample()\<close> whose queries fail.
\<close>

definition raw_run :: "(py_error + unit) \<times> int sampler \<times> int world" where
  "raw_run =
     sample int_floats (returning [[x_property (PInt 1)]]) (returning [[x_property (PInt 2)]])
       (raw_sampler, world0)"

definition disk_run :: "(py_error + unit) \<times> int sampler \<times> int world" where
  "disk_run =
     sample int_floats failing (returning [[name_property ''C:''], [name_property ''D:'']])
       (disk_sampler, world0)"

definition null_run :: "(py_error + unit) \<times> int sampler \<times> int world" where
  "null_run = sample int_floats failing (returning [[null_property]]) (disk_sampler, world0)"

definition failed_run :: "(py_error + unit) \<times> int sampler \<times> int world" where
  "failed_run = sample int_floats failing failing (raw_sampler, world0)"

text \<open>
  The first \<^verbatim>\<open>sample()\<close> of a raw performance class whose initial query returns a row and
  whose next query fails; and the first query of the sampler of \<^verbatim>\<open>Win32_LogicalDisk\<close>,
  the service returning the disks \<^verbatim>\<open>C:\<close> and \<^verbatim>\<open>D:\<close>.
\<close>

definition last_failed_run :: "(py_error + unit) \<times> int sampler \<times> int world" where
  "last_failed_run =
     sample int_floats (returning [[x_property (PInt 1)]]) failing (raw_sampler, world0)"

definition disk_query :: "(py_error + int item list) \<times> int sampler \<times> int world" where
  "disk_query =
     query int_floats (returning [[name_property ''C:''], [name_property ''D:'']])
       (disk_sampler, world0)"

definition two_filters :: dict_store where
  "two_filters = (\<lambda>a. [])(0 := [(''a'', ''1'')], 1 := [(''b'', ''2'')])"

definition total_filter :: dict_store where
  "total_filter = (\<lambda>a. [])(0 := [(''Name'', ''_Total'')])"

section \<open>What each operation changes\<close>

lemma trace_emit [simp]: "trace (emit e w) = trace w @ [e]"
  and dicts_emit [simp]: "dicts (emit e w) = dicts w"
  and conns_emit [simp]: "wmi_connections (emit e w) = wmi_connections w"
  by (simp_all add: emit_def)

lemma get_connection_quiet:
  assumes "get_connection co s w = (r, w')"
    and "\<And>h ns u. \<not> P (Debug (UsingCached h ns u))"
    and "\<And>h ns u. \<not> P (Debug (Connecting h ns u))"
    and "\<And>x. \<not> P (Dispatch x)"
    and "\<And>h ns u pw. \<not> P (ConnectServer h ns u pw)"
  shows "filter P (trace w') = filter P (trace w)"
  using assms
  by (auto simp: get_connection_def Let_def split: option.splits if_splits)

lemma get_connection_dicts:
  "get_connection co s w = (r, w') \<Longrightarrow> dicts w' = dicts w"
  by (auto simp: get_connection_def Let_def split: option.splits if_splits)

lemma get_connection_error:
  "get_connection co s w = (Inl e, w') \<Longrightarrow> e = ComError"
  by (auto simp: get_connection_def Let_def split: option.splits if_splits)

lemma get_connection_connects:
  "get_connection Connects s w = (r, w') \<Longrightarrow> \<exists>c. r = Inr c"
  by (auto simp: get_connection_def Let_def split: option.splits if_splits)

lemma get_qualifier_type_frame:
  "get_qualifier_type p d (s, w) = (s', w') \<Longrightarrow>
     (\<exists>c. s' = s\<lparr>property_counter_types := c\<rparr>) \<and> dicts w' = dicts w"
  by (auto simp: get_qualifier_type_def Let_def split: option.splits intro: exI[of _ "property_counter_types s"])

lemma get_qualifier_type_quiet:
  assumes "get_qualifier_type p d (s, w) = (s', w')"
    and "\<And>n. \<not> P (ReadQualifiers n)"
    and "\<And>c n v. \<not> P (Debug (CachingCounterType c n v))"
    and "\<And>c n. \<not> P (Debug (CounterTypeNotFound c n))"
  shows "filter P (trace w') = filter P (trace w)"
  using assms by (auto simp: get_qualifier_type_def Let_def split: option.splits)

lemma parse_property_frame:
  "parse_property fb inc p (item, s, w) = (r, item', s', w') \<Longrightarrow>
     (\<exists>c. s' = s\<lparr>property_counter_types := c\<rparr>) \<and> dicts w' = dicts w"
  by (auto simp: parse_property_def Let_def
      split: option.splits if_splits sum.splits prod.splits
      dest!: get_qualifier_type_frame intro: exI[of _ "property_counter_types s"])

lemma parse_property_quiet:
  assumes "parse_property fb inc p (item, s, w) = (r, item', s', w')"
    and "\<And>n. \<not> P (ReadQualifiers n)"
    and "\<And>c n v. \<not> P (Debug (CachingCounterType c n v))"
    and "\<And>c n. \<not> P (Debug (CounterTypeNotFound c n))"
  shows "filter P (trace w') = filter P (trace w)"
  using assms(1) get_qualifier_type_quiet[where P = P, OF _ assms(2,3,4)]
  by (auto simp: parse_property_def Let_def
      split: option.splits if_splits sum.splits prod.splits)

text \<open>Without the qualifiers, parsing a property leaves the counter types and reads nothing.\<close>

lemma parse_property_no_qualifiers:
  "parse_property fb False p (item, s, w) = (r, item', s', w') \<Longrightarrow> s' = s \<and> w' = w"
  by (auto simp: parse_property_def Let_def split: sum.splits if_splits)


lemma parse_properties_frame:
  "parse_properties fb inc ps (item, s, w) = (r, item', s', w') \<Longrightarrow>
     (\<exists>c. s' = s\<lparr>property_counter_types := c\<rparr>) \<and> dicts w' = dicts w"
proof (induction ps arbitrary: item s w)
  case Nil
  then show ?case by (auto intro: exI[of _ "property_counter_types s"])
next
  case (Cons p ps)
  obtain r1 i1 s1 w1 where p1: "parse_property fb inc p (item, s, w) = (r1, i1, s1, w1)"
    by (cases "parse_property fb inc p (item, s, w)") auto
  from parse_property_frame[OF p1] obtain c1 where
    f1: "s1 = s\<lparr>property_counter_types := c1\<rparr>" "dicts w1 = dicts w" by auto
  show ?case
  proof (cases r1)
    case (Inl e)
    then show ?thesis using Cons.prems p1 f1 by auto
  next
    case (Inr u)
    then have "parse_properties fb inc ps (i1, s1, w1) = (r, item', s', w')"
      using Cons.prems p1 by simp
    from Cons.IH[OF this] show ?thesis using f1 by auto
  qed
qed

lemma parse_properties_quiet:
  assumes "parse_properties fb inc ps (item, s, w) = (r, item', s', w')"
    and "\<And>n. \<not> P (ReadQualifiers n)"
    and "\<And>c n v. \<not> P (Debug (CachingCounterType c n v))"
    and "\<And>c n. \<not> P (Debug (CounterTypeNotFound c n))"
  shows "filter P (trace w') = filter P (trace w)"
  using assms(1)
proof (induction ps arbitrary: item s w)
  case Nil
  then show ?case by simp
next
  case (Cons p ps)
  obtain r1 i1 s1 w1 where p1: "parse_property fb inc p (item, s, w) = (r1, i1, s1, w1)"
    by (cases "parse_property fb inc p (item, s, w)") auto
  note q1 = parse_property_quiet[where P = P, OF p1 assms(2,3,4)]
  show ?case
  proof (cases r1)
    case (Inl e)
    then show ?thesis using Cons.prems p1 q1 by auto
  next
    case (Inr u)
    then have "parse_properties fb inc ps (i1, s1, w1) = (r, item', s', w')"
      using Cons.prems p1 by simp
    from Cons.IH[OF this] show ?thesis using q1 by simp
  qed
qed

lemma parse_properties_no_qualifiers:
  "parse_properties fb False ps (item, s, w) = (r, item', s', w') \<Longrightarrow> s' = s \<and> w' = w"
proof (induction ps arbitrary: item)
  case Nil
  then show ?case by simp
next
  case (Cons p ps)
  obtain r1 i1 s1 w1 where p1: "parse_property fb False p (item, s, w) = (r1, i1, s1, w1)"
    by (cases "parse_property fb False p (item, s, w)") auto
  then have e: "s1 = s" "w1 = w" using parse_property_no_qualifiers by blast+
  show ?case using Cons p1 e by (cases r1) auto
qed

lemma parse_object_frame:
  "parse_object fb inc res (s, w) = (r, s', w') \<Longrightarrow>
     (\<exists>c. s' = s\<lparr>property_counter_types := c\<rparr>) \<and> dicts w' = dicts w"
  by (auto simp: parse_object_def Let_def split: prod.splits sum.splits
      dest!: parse_properties_frame)

lemma parse_object_quiet:
  assumes "parse_object fb inc res (s, w) = (r, s', w')"
    and "\<And>n. \<not> P (ReadQualifiers n)"
    and "\<And>c n v. \<not> P (Debug (CachingCounterType c n v))"
    and "\<And>c n. \<not> P (Debug (CounterTypeNotFound c n))"
  shows "filter P (trace w') = filter P (trace w)"
  using assms(1) parse_properties_quiet[where P = P, OF _ assms(2,3,4)]
  by (auto simp: parse_object_def Let_def split: prod.splits sum.splits)

lemma parse_object_no_qualifiers:
  "parse_object fb False res (s, w) = (r, s', w') \<Longrightarrow> s' = s \<and> w' = w"
  by (auto simp: parse_object_def Let_def split: prod.splits sum.splits
      dest!: parse_properties_no_qualifiers)

lemma parse_objects_frame:
  "parse_objects fb inc raw acc (s, w) = (r, s', w') \<Longrightarrow>
     (\<exists>c. s' = s\<lparr>property_counter_types := c\<rparr>) \<and> dicts w' = dicts w"
proof (induction raw arbitrary: acc s w)
  case Nil
  then show ?case by (auto intro: exI[of _ "property_counter_types s"])
next
  case (Cons res raw)
  obtain r1 s1 w1 where p1: "parse_object fb inc res (s, w) = (r1, s1, w1)"
    by (cases "parse_object fb inc res (s, w)") auto
  from parse_object_frame[OF p1] obtain c1 where
    f1: "s1 = s\<lparr>property_counter_types := c1\<rparr>" "dicts w1 = dicts w" by auto
  show ?case
  proof (cases r1)
    case (Inl e)
    then show ?thesis using Cons.prems p1 f1 by auto
  next
    case (Inr item)
    then have "parse_objects fb inc raw (acc @ [item]) (s1, w1) = (r, s', w')"
      using Cons.prems p1 by simp
    from Cons.IH[OF this] show ?thesis using f1 by auto
  qed
qed

lemma parse_objects_quiet:
  assumes "parse_objects fb inc raw acc (s, w) = (r, s', w')"
    and "\<And>n. \<not> P (ReadQualifiers n)"
    and "\<And>c n v. \<not> P (Debug (CachingCounterType c n v))"
    and "\<And>c n. \<not> P (Debug (CounterTypeNotFound c n))"
  shows "filter P (trace w') = filter P (trace w)"
  using assms(1)
proof (induction raw arbitrary: acc s w)
  case Nil
  then show ?case by simp
next
  case (Cons res raw)
  obtain r1 s1 w1 where p1: "parse_object fb inc res (s, w) = (r1, s1, w1)"
    by (cases "parse_object fb inc res (s, w)") auto
  note q1 = parse_object_quiet[where P = P, OF p1 assms(2,3,4)]
  show ?case
  proof (cases r1)
    case (Inl e)
    then show ?thesis using Cons.prems p1 q1 by auto
  next
    case (Inr item)
    then have "parse_objects fb inc raw (acc @ [item]) (s1, w1) = (r, s', w')"
      using Cons.prems p1 by simp
    from Cons.IH[OF this] show ?thesis using q1 by simp
  qed
qed

lemma parse_objects_no_qualifiers:
  "parse_objects fb False raw acc (s, w) = (r, s', w') \<Longrightarrow> s' = s \<and> w' = w"
proof (induction raw arbitrary: acc)
  case Nil
  then show ?case by simp
next
  case (Cons res raw)
  obtain r1 s1 w1 where p1: "parse_object fb False res (s, w) = (r1, s1, w1)"
    by (cases "parse_object fb False res (s, w)") auto
  then have e: "s1 = s" "w1 = w" using parse_object_no_qualifiers by blast+
  show ?case using Cons p1 e by (cases r1) auto
qed

text \<open>No exception of \<^verbatim>\<open>_parse_results\<close> is a \<^verbatim>\<open>com_error\<close>.\<close>

lemma parse_property_error:
  "parse_property fb inc p st = (Inl e, st') \<Longrightarrow> e \<noteq> ComError"
  by (cases st, cases "Value p")
     (auto simp: parse_property_def Let_def split: option.splits if_splits sum.splits prod.splits)

lemma parse_properties_error:
  "parse_properties fb inc ps st = (Inl e, st') \<Longrightarrow> e \<noteq> ComError"
proof (induction ps arbitrary: st)
  case Nil
  then show ?case by simp
next
  case (Cons p ps)
  then show ?case
    by (auto split: prod.splits sum.splits dest: parse_property_error)
qed

lemma parse_object_error:
  "parse_object fb inc res sw = (Inl e, sw') \<Longrightarrow> e \<noteq> ComError"
  by (cases sw) (auto simp: parse_object_def Let_def split: prod.splits sum.splits
      dest: parse_properties_error)

lemma parse_objects_error:
  "parse_objects fb inc raw acc sw = (Inl e, sw') \<Longrightarrow> e \<noteq> ComError"
proof (induction raw arbitrary: acc sw)
  case Nil
  then show ?case by simp
next
  case (Cons res raw)
  then show ?case
    by (auto split: prod.splits sum.splits dest: parse_object_error)
qed


section \<open>Queries\<close>

lemma query_failed_eq [simp]:
  "query_failed wql (s, w) = (Inr [], s, emit (Warning (FailedQuery wql)) w)"
  by (simp add: query_failed_def)

lemma query_filter_error:
  "format_filter (dicts w) (filters s) = (Inl e, h1, fs1) \<Longrightarrow>
   query fb oc (s, w) = (Inl e, s\<lparr>filters := fs1\<rparr>, w\<lparr>dicts := h1\<rparr>)"
  by (simp add: query_def)

text \<open>
  \<^verbatim>\<open>_query\<close> once the filters are rendered: \<open>s2\<close> is the sampler with its counter
  types initialised, \<open>w2\<close> the world after the debug message.
\<close>

lemma query_rendered:
  assumes "format_filter (dicts w) (filters s) = (Inr clause, h1, fs1)"
    and "wql = ''Select '' @ join '','' (property_names s) @ '' from '' @ class_name s @ clause"
    and "inc = (property_counter_types s = None)"
    and "s2 = s\<lparr>filters := fs1,
                 property_counter_types := Some (case property_counter_types s of None \<Rightarrow> [] | Some d \<Rightarrow> d)\<rparr>"
    and "w2 = emit (Debug (QueryingWMI wql)) (w\<lparr>dicts := h1\<rparr>)"
    and "fl = (if inc then (flag_return_immediately OR flag_forward_only) OR flag_use_amended_qualifiers
               else flag_return_immediately OR flag_forward_only)"
  shows "query fb oc (s, w) =
     (case get_connection (connecting oc) s2 w2 of
        (Inl e, w3) \<Rightarrow> if e = ComError then query_failed wql (s2, w3) else (Inl e, s2, w3)
      | (Inr connection, w3) \<Rightarrow>
          (case exec_result oc of
             None \<Rightarrow> query_failed wql (s2, emit (ExecQuery connection wql fl) w3)
           | Some raw_results \<Rightarrow>
               (case parse_results fb raw_results inc (s2, emit (ExecQuery connection wql fl) w3) of
                  (Inl e, s3, w5) \<Rightarrow>
                    if e = ComError then query_failed wql (s3, w5) else (Inl e, s3, w5)
                | (Inr results, s3, w5) \<Rightarrow> (Inr results, s3, w5))))"
proof (cases "property_counter_types s")
  case None
  then show ?thesis
    using assms(1) by (simp add: query_def Let_def assms(2-) del: append.simps
        split: prod.splits sum.splits option.splits)
next
  case (Some d)
  then have same: "s\<lparr>filters := fs1, property_counter_types := Some d\<rparr> = s\<lparr>filters := fs1\<rparr>"
    by (cases s) simp
  show ?thesis
    using assms(1) Some by (simp add: query_def Let_def assms(2-) same del: append.simps
        split: prod.splits sum.splits option.splits)
qed


lemma parse_results_error:
  "parse_results fb raw inc sw = (Inl e, sw') \<Longrightarrow> e \<noteq> ComError"
  by (auto simp: parse_results_def dest: parse_objects_error)

text \<open>The four ways in which \<^verbatim>\<open>_query\<close> ends.\<close>

lemma query_cases:
  assumes "query fb oc (s, w) = (r, s', w')"
  obtains
    (filter_error) e h1 fs1 where
      "format_filter (dicts w) (filters s) = (Inl e, h1, fs1)"
      "r = Inl e" "s' = s\<lparr>filters := fs1\<rparr>" "w' = w\<lparr>dicts := h1\<rparr>"
  | (no_connection) clause h1 fs1 wql s2 w2 w3 where
      "format_filter (dicts w) (filters s) = (Inr clause, h1, fs1)"
      "s2 = s\<lparr>filters := fs1, property_counter_types :=
              Some (case property_counter_types s of None \<Rightarrow> [] | Some d \<Rightarrow> d)\<rparr>"
      "w2 = emit (Debug (QueryingWMI wql)) (w\<lparr>dicts := h1\<rparr>)"
      "get_connection (connecting oc) s2 w2 = (Inl ComError, w3)"
      "r = Inr []" "s' = s2" "w' = emit (Warning (FailedQuery wql)) w3"
  | (exec_error) clause h1 fs1 wql s2 w2 w3 c fl where
      "format_filter (dicts w) (filters s) = (Inr clause, h1, fs1)"
      "s2 = s\<lparr>filters := fs1, property_counter_types :=
              Some (case property_counter_types s of None \<Rightarrow> [] | Some d \<Rightarrow> d)\<rparr>"
      "w2 = emit (Debug (QueryingWMI wql)) (w\<lparr>dicts := h1\<rparr>)"
      "get_connection (connecting oc) s2 w2 = (Inr c, w3)"
      "exec_result oc = None"
      "r = Inr []" "s' = s2"
      "w' = emit (Warning (FailedQuery wql)) (emit (ExecQuery c wql fl) w3)"
  | (parsed) clause h1 fs1 wql s2 w2 w3 c fl raw where
      "format_filter (dicts w) (filters s) = (Inr clause, h1, fs1)"
      "s2 = s\<lparr>filters := fs1, property_counter_types :=
              Some (case property_counter_types s of None \<Rightarrow> [] | Some d \<Rightarrow> d)\<rparr>"
      "w2 = emit (Debug (QueryingWMI wql)) (w\<lparr>dicts := h1\<rparr>)"
      "get_connection (connecting oc) s2 w2 = (Inr c, w3)"
      "exec_result oc = Some raw"
      "parse_results fb raw (property_counter_types s = None) (s2, emit (ExecQuery c wql fl) w3)
         = (r, s', w')"
proof -
  obtain fr h1 fs1 where ff: "format_filter (dicts w) (filters s) = (fr, h1, fs1)"
    by (cases "format_filter (dicts w) (filters s)") auto
  show thesis
  proof (cases fr)
    case (Inl e)
    then show ?thesis
      using assms ff filter_error by (simp add: query_filter_error)
  next
    case (Inr clause)
    define wql where "wql = ''Select '' @ join '','' (property_names s) @ '' from '' @ class_name s @ clause"
    define s2 where "s2 = s\<lparr>filters := fs1, property_counter_types :=
              Some (case property_counter_types s of None \<Rightarrow> [] | Some d \<Rightarrow> d)\<rparr>"
    define w2 where "w2 = emit (Debug (QueryingWMI wql)) (w\<lparr>dicts := h1\<rparr>)"
    define fl where "fl = (if property_counter_types s = None
         then (flag_return_immediately OR flag_forward_only) OR flag_use_amended_qualifiers
         else flag_return_immediately OR flag_forward_only)"
    note q = query_rendered[OF ff[unfolded Inr] wql_def refl s2_def w2_def fl_def, of fb oc]
    obtain cr w3 where gc: "get_connection (connecting oc) s2 w2 = (cr, w3)"
      by (cases "get_connection (connecting oc) s2 w2") auto
    show ?thesis
    proof (cases cr)
      case (Inl e)
      then have g: "get_connection (connecting oc) s2 w2 = (Inl ComError, w3)"
        using gc get_connection_error by blast
      have "query fb oc (s, w) = (Inr [], s2, emit (Warning (FailedQuery wql)) w3)"
        by (simp add: q g)
      then have "r = Inr []" "s' = s2" "w' = emit (Warning (FailedQuery wql)) w3"
        using assms by simp_all
      then show ?thesis
        by (rule no_connection[OF ff[unfolded Inr] s2_def w2_def g])
    next
      case c: (Inr c)
      note g = gc[unfolded c]
      show ?thesis
      proof (cases "exec_result oc")
        case None
        have "query fb oc (s, w) =
            (Inr [], s2, emit (Warning (FailedQuery wql)) (emit (ExecQuery c wql fl) w3))"
          by (simp add: q g None)
        then have "r = Inr []" "s' = s2"
          "w' = emit (Warning (FailedQuery wql)) (emit (ExecQuery c wql fl) w3)"
          using assms by simp_all
        then show ?thesis
          by (rule exec_error[OF ff[unfolded Inr] s2_def w2_def g None])
      next
        case (Some raw)
        obtain pr s3 w5 where
          pp: "parse_results fb raw (property_counter_types s = None)
                 (s2, emit (ExecQuery c wql fl) w3) = (pr, s3, w5)"
          by (cases "parse_results fb raw (property_counter_types s = None)
                 (s2, emit (ExecQuery c wql fl) w3)") auto
        have "query fb oc (s, w) = (pr, s3, w5)"
        proof (cases pr)
          case (Inl e)
          then have "e \<noteq> ComError" using pp parse_results_error by blast
          then show ?thesis
            by (simp add: q g Some pp Inl)
        next
          case (Inr results)
          then show ?thesis
            by (simp add: q g Some pp Inr)
        qed
        then have "pr = r" "s3 = s'" "w5 = w'" using assms by simp_all
        then show ?thesis
          using parsed[OF ff[unfolded Inr] s2_def w2_def g Some] pp by simp
      qed
    qed
  qed
qed

section \<open>Filter rendering\<close>

text \<open>One step of \<^verbatim>\<open>build_where_clause\<close> on a list that ends with a non-empty mapping.\<close>

lemma bwc_snoc:
  "h f \<noteq> [] \<Longrightarrow> build_where_clause h (fs @ [f]) =
     (let h1 = h(f := butlast (h f)) in
      if fs = [] then (Inr (conjunct_of (h f)), h1, [])
      else (case build_where_clause h1 fs of
              (Inl e, h2, fltr2) \<Rightarrow> (Inl e, h2, fltr2)
            | (Inr clause, h2, fltr2) \<Rightarrow>
                (Inr (conjunct_of (h f) @ '' AND '' @ clause), h2, fltr2)))"
  by (subst build_where_clause.simps)
     (auto simp: list_pop_def popitem_def conjunct_of_def Let_def split: prod.splits sum.splits)

lemma join_Cons: "xs \<noteq> [] \<Longrightarrow> join sep (x # xs) = x @ sep @ join sep xs"
  by (cases xs) auto

lemma bwc_single:
  "fs \<noteq> [] \<Longrightarrow> distinct fs \<Longrightarrow> \<forall>a\<in>set fs. single_key (h a) \<Longrightarrow>
   build_where_clause h fs =
     (Inr (join '' AND '' (map (\<lambda>a. conjunct_of (h a)) (rev fs))),
      (\<lambda>a. if a \<in> set fs then [] else h a), [])"
proof (induction fs arbitrary: h rule: rev_induct)
  case Nil
  then show ?case by simp
next
  case (snoc f fs)
  have hf: "h f \<noteq> []" "butlast (h f) = []"
    using snoc.prems(3) by (auto simp: single_key_def length_Suc_conv)
  show ?case
  proof (cases "fs = []")
    case True
    then show ?thesis using hf bwc_snoc[of h f "[]"] by (auto simp: fun_upd_def)
  next
    case False
    have d: "distinct fs" "f \<notin> set fs" using snoc.prems(2) by auto
    have s: "\<forall>a\<in>set fs. single_key ((h(f := [])) a)"
      using snoc.prems(3) d by auto
    have m: "map (\<lambda>a. conjunct_of ((h(f := [])) a)) (rev fs) = map (\<lambda>a. conjunct_of (h a)) (rev fs)"
      using d by auto
    have st: "(\<lambda>a. if a \<in> set fs then [] else (h(f := [])) a) =
              (\<lambda>a. if a \<in> set (fs @ [f]) then [] else h a)"
      by auto
    have ih: "build_where_clause (h(f := [])) fs =
        (Inr (join '' AND '' (map (\<lambda>a. conjunct_of (h a)) (rev fs))),
         (\<lambda>a. if a \<in> set (fs @ [f]) then [] else h a), [])"
      using snoc.IH[OF False d(1) s] by (simp only: m st)
    have "build_where_clause h (fs @ [f]) =
        (Inr (conjunct_of (h f) @ '' AND '' @ join '' AND '' (map (\<lambda>a. conjunct_of (h a)) (rev fs))),
         (\<lambda>a. if a \<in> set (fs @ [f]) then [] else h a), [])"
      using False hf(1) by (simp add: bwc_snoc[of h f fs] hf(2) ih)
    then show ?thesis using False by (simp add: join_Cons)
  qed
qed

text \<open>Whenever the clause is built, the list has been emptied.\<close>

lemma bwc_leaves_empty:
  "build_where_clause h fs = (Inr c, h', fs') \<Longrightarrow> fs' = []"
proof (induction fs arbitrary: h c h' fs' rule: rev_induct)
  case Nil
  then show ?case by (subst (asm) build_where_clause.simps) (simp add: list_pop_def)
next
  case (snoc f fs)
  show ?case
  proof (cases "h f = []")
    case True
    then show ?thesis using snoc.prems
      by (subst (asm) build_where_clause.simps) (simp add: list_pop_def popitem_def)
  next
    case False
    note eq = snoc.prems[unfolded bwc_snoc[of h f fs, OF False]]
    show ?thesis
    proof (cases "fs = []")
      case True
      then show ?thesis using eq by (simp add: Let_def)
    next
      case fne: False
      obtain r h2 f2 where b: "build_where_clause (h(f := butlast (h f))) fs = (r, h2, f2)"
        by (cases "build_where_clause (h(f := butlast (h f))) fs") auto
      show ?thesis
      proof (cases r)
        case (Inl e)
        then show ?thesis using eq fne b by (simp add: Let_def)
      next
        case (Inr c2)
        then have "f2 = []" using snoc.IH b by blast
        then show ?thesis using eq fne b Inr by (simp add: Let_def)
      qed
    qed
  qed
qed

lemma format_filter_leaves_empty:
  "format_filter h fs = (Inr c, h', fs') \<Longrightarrow> fs' = []"
  by (auto simp: format_filter_def split: if_splits prod.splits sum.splits dest: bwc_leaves_empty)

lemma format_filter_Nil: "format_filter h [] = (Inr [], h, [])"
  by (simp add: format_filter_def)

lemma two_filters_simps:
  "two_filters 0 = [(''a'', ''1'')]" "two_filters (Suc 0) = [(''b'', ''2'')]"
  by (simp_all add: two_filters_def)

section \<open>Queries, continued\<close>

lemma parse_results_frame:
  "parse_results fb raw inc (s, w) = (r, s', w') \<Longrightarrow>
     (\<exists>c. s' = s\<lparr>property_counter_types := c\<rparr>) \<and> dicts w' = dicts w"
  unfolding parse_results_def by (rule parse_objects_frame)

lemma parse_results_quiet:
  assumes "parse_results fb raw inc (s, w) = (r, s', w')"
    and "\<And>n. \<not> P (ReadQualifiers n)"
    and "\<And>c n v. \<not> P (Debug (CachingCounterType c n v))"
    and "\<And>c n. \<not> P (Debug (CounterTypeNotFound c n))"
  shows "filter P (trace w') = filter P (trace w)"
  using assms(1) unfolding parse_results_def
  by (rule parse_objects_quiet) (fact assms(2,3,4))+

lemma parse_results_no_qualifiers:
  "parse_results fb raw False (s, w) = (r, s', w') \<Longrightarrow> s' = s \<and> w' = w"
  unfolding parse_results_def by (rule parse_objects_no_qualifiers)

text \<open>A property of sampler and world that parsing one property keeps is kept by the loops.\<close>

lemma parse_properties_inv:
  assumes "parse_properties fb inc ps (item, s, w) = (r, item', s', w')" and "Q s w"
    and "\<And>p i s w r i' s' w'. p \<in> set ps \<Longrightarrow> Q s w \<Longrightarrow>
           parse_property fb inc p (i, s, w) = (r, i', s', w') \<Longrightarrow> Q s' w'"
  shows "Q s' w'"
  using assms
proof (induction ps arbitrary: item s w)
  case Nil
  then show ?case by simp
next
  case (Cons p ps)
  obtain r1 i1 s1 w1 where p1: "parse_property fb inc p (item, s, w) = (r1, i1, s1, w1)"
    by (cases "parse_property fb inc p (item, s, w)") auto
  have q1: "Q s1 w1" using Cons.prems(3)[OF _ Cons.prems(2) p1] by simp
  show ?case
  proof (cases r1)
    case (Inl e)
    then show ?thesis using Cons.prems(1) p1 q1 by simp
  next
    case (Inr u)
    then have step: "parse_properties fb inc ps (i1, s1, w1) = (r, item', s', w')"
      using Cons.prems(1) p1 by simp
    show ?thesis
    proof (rule Cons.IH[OF step q1])
      fix p' i s w r i' s' w'
      assume a: "p' \<in> set ps" "Q s w" "parse_property fb inc p' (i, s, w) = (r, i', s', w')"
      have "p' \<in> set (p # ps)" using a(1) by simp
      from Cons.prems(3)[OF this a(2,3)] show "Q s' w'" .
    qed
  qed
qed

lemma parse_objects_inv:
  assumes "parse_objects fb inc raw acc (s, w) = (r, s', w')" and "Q s w"
    and "\<And>res p i s w r i' s' w'. res \<in> set raw \<Longrightarrow> p \<in> set res \<Longrightarrow> Q s w \<Longrightarrow>
           parse_property fb inc p (i, s, w) = (r, i', s', w') \<Longrightarrow> Q s' w'"
  shows "Q s' w'"
  using assms
proof (induction raw arbitrary: acc s w)
  case Nil
  then show ?case by simp
next
  case (Cons res raw)
  obtain r1 s1 w1 where p1: "parse_object fb inc res (s, w) = (r1, s1, w1)"
    by (cases "parse_object fb inc res (s, w)") auto
  have q1: "Q s1 w1"
  proof -
    obtain r0 i0 where "parse_properties fb inc res
        (foldl (\<lambda>item prop_name. ci_setitem prop_name PNone item) [] (property_names s), s, w)
          = (r0, i0, s1, w1)"
      using p1 by (auto simp: parse_object_def Let_def split: prod.splits sum.splits)
    then show ?thesis
      by (rule parse_properties_inv[where Q = Q, OF _ Cons.prems(2)])
         (rule Cons.prems(3)[of res], simp_all)
  qed
  show ?case
  proof (cases r1)
    case (Inl e)
    then show ?thesis using Cons.prems(1) p1 q1 by simp
  next
    case (Inr item)
    then have step: "parse_objects fb inc raw (acc @ [item]) (s1, w1) = (r, s', w')"
      using Cons.prems(1) p1 by simp
    show ?thesis
    proof (rule Cons.IH[OF step q1])
      fix res' p i s w r i' s' w'
      assume a: "res' \<in> set raw" "p \<in> set res'" "Q s w"
        "parse_property fb inc p (i, s, w) = (r, i', s', w')"
      have "res' \<in> set (res # raw)" using a(1) by simp
      from Cons.prems(3)[OF this a(2,3,4)] show "Q s' w'" .
    qed
  qed
qed

lemma parse_results_inv:
  assumes "parse_results fb raw inc (s, w) = (r, s', w')" and "Q s w"
    and "\<And>res p i s w r i' s' w'. res \<in> set raw \<Longrightarrow> p \<in> set res \<Longrightarrow> Q s w \<Longrightarrow>
           parse_property fb inc p (i, s, w) = (r, i', s', w') \<Longrightarrow> Q s' w'"
  shows "Q s' w'"
  using assms(1) unfolding parse_results_def
  by (rule parse_objects_inv[where Q = Q, OF _ assms(2)]) (rule assms(3))

lemma parse_property_keeps_counter_types:
  "parse_property fb inc p (i, s, w) = (r, i', s', w') \<Longrightarrow>
   property_counter_types s \<noteq> None \<Longrightarrow> property_counter_types s' \<noteq> None"
  by (auto simp: parse_property_def get_qualifier_type_def Let_def
      split: option.splits if_splits sum.splits prod.splits)

lemma parse_results_keeps_counter_types:
  assumes "parse_results fb raw inc (s, w) = (r, s', w')"
    and "property_counter_types s \<noteq> None"
  shows "property_counter_types s' \<noteq> None"
  by (rule parse_results_inv[where Q = "\<lambda>s w. property_counter_types s \<noteq> None", OF assms])
     (rule parse_property_keeps_counter_types)

text \<open>\<^verbatim>\<open>_query\<close> changes the filter list and the counter types of the sampler, nothing else.\<close>

lemma query_frame:
  assumes "query fb oc (s, w) = (r, s', w')"
  shows "\<exists>f c. s' = s\<lparr>filters := f, property_counter_types := c\<rparr>"
  using assms
proof (cases rule: query_cases)
  case (filter_error e h1 fs1)
  have "s\<lparr>filters := fs1\<rparr> = s\<lparr>filters := fs1, property_counter_types := property_counter_types s\<rparr>"
    by simp
  then show ?thesis using filter_error(3) by metis
next
  case (parsed clause h1 fs1 wql s2 w2 w3 c fl raw)
  from parse_results_frame[OF parsed(6)] obtain c' where "s' = s2\<lparr>property_counter_types := c'\<rparr>"
    by auto
  then have "s' = s\<lparr>filters := fs1, property_counter_types := c'\<rparr>"
    using parsed(2) by simp
  then show ?thesis by blast
qed blast+

lemma query_samples:
  assumes "query fb oc (s, w) = (r, s', w')"
  shows "current_sample s' = current_sample s" "previous_sample s' = previous_sample s"
    "is_raw_perf_class s' = is_raw_perf_class s"
  using query_frame[OF assms] by auto

text \<open>A query that returns has rendered its filters, which empties the list, and has
  announced itself once; the counter types are initialised from then on.\<close>

lemma query_returns:
  assumes "query fb oc (s, w) = (Inr res, s', w')"
  shows "filters s' = [] \<and> property_counter_types s' \<noteq> None \<and>
    length (filter is_query_start (trace w')) = Suc (length (filter is_query_start (trace w)))"
  using assms
proof (cases rule: query_cases)
  case (filter_error e h1 fs1)
  then show ?thesis by simp
next
  case (no_connection clause h1 fs1 wql s2 w2 w3)
  note e = format_filter_leaves_empty[OF no_connection(1)]
  have q: "filter is_query_start (trace w3) = filter is_query_start (trace w2)"
    by (rule get_connection_quiet[OF no_connection(4)]) simp_all
  show ?thesis using no_connection(2,3,6,7) e q by simp
next
  case (exec_error clause h1 fs1 wql s2 w2 w3 c fl)
  note e = format_filter_leaves_empty[OF exec_error(1)]
  have q: "filter is_query_start (trace w3) = filter is_query_start (trace w2)"
    by (rule get_connection_quiet[OF exec_error(4)]) simp_all
  show ?thesis using exec_error(2,3,7,8) e q by simp
next
  case (parsed clause h1 fs1 wql s2 w2 w3 c fl raw)
  note e = format_filter_leaves_empty[OF parsed(1)]
  have q: "filter is_query_start (trace w3) = filter is_query_start (trace w2)"
    by (rule get_connection_quiet[OF parsed(4)]) simp_all
  have p: "filter is_query_start (trace w') =
        filter is_query_start (trace (emit (ExecQuery c wql fl) w3))"
    by (rule parse_results_quiet[OF parsed(6)]) simp_all
  from parse_results_frame[OF parsed(6)] obtain c' where s': "s' = s2\<lparr>property_counter_types := c'\<rparr>"
    by auto
  have k: "property_counter_types s' \<noteq> None"
    by (rule parse_results_keeps_counter_types[OF parsed(6)]) (simp add: parsed(2))
  show ?thesis using parsed(2,3) e s' k q p by simp
qed

text \<open>Once the counter types are initialised, a query leaves them alone and reads no qualifiers.\<close>

lemma query_initialised:
  assumes "query fb oc (s, w) = (r, s', w')" and "property_counter_types s \<noteq> None"
  shows "property_counter_types s' = property_counter_types s \<and>
    filter is_qualifier_read (trace w') = filter is_qualifier_read (trace w)"
  using assms(1)
proof (cases rule: query_cases)
  case (filter_error e h1 fs1)
  then show ?thesis by simp
next
  case (no_connection clause h1 fs1 wql s2 w2 w3)
  have q: "filter is_qualifier_read (trace w3) = filter is_qualifier_read (trace w2)"
    by (rule get_connection_quiet[OF no_connection(4)]) simp_all
  show ?thesis using no_connection(2,3,6,7) q assms(2) by auto
next
  case (exec_error clause h1 fs1 wql s2 w2 w3 c fl)
  have q: "filter is_qualifier_read (trace w3) = filter is_qualifier_read (trace w2)"
    by (rule get_connection_quiet[OF exec_error(4)]) simp_all
  show ?thesis using exec_error(2,3,7,8) q assms(2) by auto
next
  case (parsed clause h1 fs1 wql s2 w2 w3 c fl raw)
  have q: "filter is_qualifier_read (trace w3) = filter is_qualifier_read (trace w2)"
    by (rule get_connection_quiet[OF parsed(4)]) simp_all
  have "parse_results fb raw False (s2, emit (ExecQuery c wql fl) w3) = (r, s', w')"
    using parsed(6) assms(2) by simp
  from parse_results_no_qualifiers[OF this]
  show ?thesis using parsed(2,3) q assms(2) by auto
qed

text \<open>A query whose \<^verbatim>\<open>ExecQuery\<close> raises, once the filters are rendered.\<close>

lemma query_exec_fails:
  assumes "exec_result oc = None"
    and "fst (format_filter (dicts w) (filters s)) = Inr clause"
    and "query fb oc (s, w) = (r, s', w')"
  shows "r = Inr [] \<and> filters s' = [] \<and> 
    property_counter_types s' =
       Some (case property_counter_types s of None \<Rightarrow> [] | Some d \<Rightarrow> d) \<and>
    length (filter is_warning (trace w')) = Suc (length (filter is_warning (trace w))) \<and>
    filter is_qualifier_read (trace w') = filter is_qualifier_read (trace w) \<and>
    fst (format_filter (dicts w') []) = Inr []"
  using assms(3)
proof (cases rule: query_cases)
  case (filter_error e h1 fs1)
  then show ?thesis using assms(2) by simp
next
  case (no_connection clause h1 fs1 wql s2 w2 w3)
  note e = format_filter_leaves_empty[OF no_connection(1)]
  have q: "filter is_qualifier_read (trace w3) = filter is_qualifier_read (trace w2)"
    "filter is_warning (trace w3) = filter is_warning (trace w2)"
    by (rule get_connection_quiet[OF no_connection(4)]; simp)+
  show ?thesis using no_connection(2,3,5,6,7) q e by (simp add: format_filter_Nil)
next
  case (exec_error clause h1 fs1 wql s2 w2 w3 c fl)
  note e = format_filter_leaves_empty[OF exec_error(1)]
  have q: "filter is_qualifier_read (trace w3) = filter is_qualifier_read (trace w2)"
    "filter is_warning (trace w3) = filter is_warning (trace w2)"
    by (rule get_connection_quiet[OF exec_error(4)]; simp)+
  show ?thesis using exec_error(2,3,6,7,8) q e by (simp add: format_filter_Nil)
next
  case (parsed clause h1 fs1 wql s2 w2 w3 c fl raw)
  then show ?thesis using assms(1) by simp
qed

section \<open>Sampling\<close>

text \<open>The three ways through \<^verbatim>\<open>sample\<close>.\<close>

lemma sample_cases:
  assumes "sample fb oc0 oc (s, w) = (r, s', w')"
  obtains
    (initial_raises) e where
      "is_raw_perf_class s" "falsy (previous_sample s)"
      "query fb oc0 (s, emit (Debug InitialSample) w) = (Inl e, s', w')" "r = Inl e"
  | (initial) res0 s0 w0 r1 s3 w3 where
      "is_raw_perf_class s" "falsy (previous_sample s)"
      "query fb oc0 (s, emit (Debug InitialSample) w) = (Inr res0, s0, w0)"
      "query fb oc (s0\<lparr>current_sample := Some res0, previous_sample := Some res0\<rparr>, w0)
         = (r1, s3, w3)"
      "(r, s', w') =
         (case r1 of Inl e \<Rightarrow> (Inl e, s3, w3)
          | Inr res \<Rightarrow> (Inr (), s3\<lparr>current_sample := Some res\<rparr>,
                        emit (Debug (SampleMsg (Some res))) w3))"
  | (plain) r1 s3 w3 where
      "\<not> (is_raw_perf_class s \<and> falsy (previous_sample s))"
      "query fb oc (s\<lparr>previous_sample := current_sample s\<rparr>, w) = (r1, s3, w3)"
      "(r, s', w') =
         (case r1 of Inl e \<Rightarrow> (Inl e, s3, w3)
          | Inr res \<Rightarrow> (Inr (), s3\<lparr>current_sample := Some res\<rparr>,
                        emit (Debug (SampleMsg (Some res))) w3))"
proof (cases "is_raw_perf_class s \<and> falsy (previous_sample s)")
  case True
  obtain r0 s0 w0 where q0: "query fb oc0 (s, emit (Debug InitialSample) w) = (r0, s0, w0)"
    by (cases "query fb oc0 (s, emit (Debug InitialSample) w)") auto
  show ?thesis
  proof (cases r0)
    case (Inl e)
    then have "(r, s', w') = (Inl e, s0, w0)"
      using assms True q0 by (simp add: sample_def)
    then show ?thesis using initial_raises[of e] True q0 Inl by simp
  next
    case (Inr res0)
    obtain r1 s3 w3 where
      q1: "query fb oc (s0\<lparr>current_sample := Some res0, previous_sample := Some res0\<rparr>, w0)
             = (r1, s3, w3)"
      by (cases "query fb oc (s0\<lparr>current_sample := Some res0, previous_sample := Some res0\<rparr>, w0)")
         auto
    have "(r, s', w') =
         (case r1 of Inl e \<Rightarrow> (Inl e, s3, w3)
          | Inr res \<Rightarrow> (Inr (), s3\<lparr>current_sample := Some res\<rparr>,
                        emit (Debug (SampleMsg (Some res))) w3))"
      using assms True q0 Inr q1 by (simp add: sample_def Let_def split: sum.splits)
    then show ?thesis using initial[of res0 s0 w0 r1 s3 w3] True q0 Inr q1 by simp
  qed
next
  case False
  obtain r1 s3 w3 where
    q1: "query fb oc (s\<lparr>previous_sample := current_sample s\<rparr>, w) = (r1, s3, w3)"
    by (cases "query fb oc (s\<lparr>previous_sample := current_sample s\<rparr>, w)") auto
  have "(r, s', w') =
         (case r1 of Inl e \<Rightarrow> (Inl e, s3, w3)
          | Inr res \<Rightarrow> (Inr (), s3\<lparr>current_sample := Some res\<rparr>,
                        emit (Debug (SampleMsg (Some res))) w3))"
    using assms False q1 by (simp add: sample_def Let_def split: sum.splits)
  then show ?thesis using plain[of r1 s3 w3] False q1 by simp
qed

text \<open>Once the counter types are initialised, \<^verbatim>\<open>sample\<close> leaves them alone and reads no
  qualifiers, whether it returns or raises.\<close>

lemma sample_initialised:
  assumes "sample fb oc0 oc (s, w) = (r, s', w')" and "property_counter_types s \<noteq> None"
  shows "property_counter_types s' = property_counter_types s \<and>
    filter is_qualifier_read (trace w') = filter is_qualifier_read (trace w)"
  using assms(1)
proof (cases rule: sample_cases)
  case (initial_raises e)
  from query_initialised[OF initial_raises(3) assms(2)] show ?thesis by simp
next
  case (initial res0 s0 w0 r1 s3 w3)
  from query_initialised[OF initial(3) assms(2)]
  have a: "property_counter_types s0 = property_counter_types s"
    "filter is_qualifier_read (trace w0) = filter is_qualifier_read (trace w)" by simp_all
  have "property_counter_types (s0\<lparr>current_sample := Some res0, previous_sample := Some res0\<rparr>)
          \<noteq> None"
    using a assms(2) by simp
  from query_initialised[OF initial(4) this]
  have b: "property_counter_types s3 = property_counter_types s"
    "filter is_qualifier_read (trace w3) = filter is_qualifier_read (trace w)"
    using a by simp_all
  show ?thesis using initial(5) b by (cases r1) auto
next
  case (plain r1 s3 w3)
  have "property_counter_types (s\<lparr>previous_sample := current_sample s\<rparr>) \<noteq> None"
    using assms(2) by simp
  from query_initialised[OF plain(2) this]
  have b: "property_counter_types s3 = property_counter_types s"
    "filter is_qualifier_read (trace w3) = filter is_qualifier_read (trace w)"
    by simp_all
  show ?thesis using plain(3) b by (cases r1) auto
qed

lemma samples_initialised:
  assumes "samples fb ocs (s, w) = (s', w')" and "property_counter_types s \<noteq> None"
  shows "property_counter_types s' = property_counter_types s \<and>
    filter is_qualifier_read (trace w') = filter is_qualifier_read (trace w)"
  using assms
proof (induction ocs arbitrary: s w)
  case Nil
  then show ?case by simp
next
  case (Cons p ocs)
  obtain oc0 oc where p: "p = (oc0, oc)" by (cases p) auto
  obtain r1 s1 w1 where s1: "sample fb oc0 oc (s, w) = (r1, s1, w1)"
    by (cases "sample fb oc0 oc (s, w)") auto
  note i = sample_initialised[OF s1 Cons.prems(2)]
  have "samples fb ocs (s1, w1) = (s', w')" using Cons.prems(1) p s1 by simp
  from Cons.IH[OF this] i Cons.prems(2) show ?case by simp
qed

section \<open>The concrete inputs, evaluated\<close>

lemma lower_simps:
  "lower ''Name'' = ''name''" "lower ''X'' = ''x''"
  "lower ''Timestamp_Sys100NS'' = ''timestamp_sys100ns''"
  "lower ''Frequency_Sys100NS'' = ''frequency_sys100ns''"
  by (simp_all add: lower_def lower_char_def)

lemma raw_sampler_eq:
  "raw_sampler = \<lparr> host = ''localhost'', namespace = ''ns'', username = [], password = [],
        is_raw_perf_class = True,
        class_name = ''Win32_PerfRawData_PerfOS_System'',
        property_names = [''X'', ''Timestamp_Sys100NS'', ''Frequency_Sys100NS''],
        filters = [],
        property_counter_types = None,
        current_sample = None,
        previous_sample = None \<rparr>"
  by (simp add: raw_sampler_def init_sampler_def upper_def upper_char_def)

lemma disk_sampler_eq:
  "disk_sampler = \<lparr> host = ''localhost'', namespace = ''ns'', username = [], password = [],
        is_raw_perf_class = False,
        class_name = ''Win32_LogicalDisk'',
        property_names = [''Name''],
        filters = [],
        property_counter_types = None,
        current_sample = None,
        previous_sample = None \<rparr>"
  by (simp add: disk_sampler_def init_sampler_def upper_def upper_char_def)

lemmas eval_defs = sample_def query_def format_filter_def get_connection_def parse_results_def
  parse_object_def parse_property_def get_qualifier_type_def ci_contains_def ci_setitem_def
  emit_def falsy_def connection_key_def query_failed_def Let_def
  world0_def returning_def failing_def x_property_def name_property_def null_property_def
  int_floats_def lower_simps

lemma raw_run_sampler:
  "fst raw_run = Inr ()"
  "fst (snd raw_run) = raw_sampler
     \<lparr> property_counter_types := Some [(''x'', PInt 65536)],
       current_sample := Some [x_item 2], previous_sample := Some [x_item 1] \<rparr>"
  by (simp_all add: raw_run_def eval_defs raw_sampler_eq x_item_def)

lemma raw_run_trace:
  "length (filter is_query_start (trace (snd (snd raw_run)))) = 2"
  "length (filter is_exec_query (trace (snd (snd raw_run)))) = 2"
  "filter is_qualifier_read (trace (snd (snd raw_run))) = [ReadQualifiers ''X'']"
  by (simp_all add: raw_run_def eval_defs raw_sampler_eq)

lemma disk_run_sampler:
  "fst disk_run = Inr ()"
  "fst (snd disk_run) = disk_sampler
     \<lparr> property_counter_types := Some [],
       current_sample := Some [[(''name'', PStr ''C:'')], [(''name'', PStr ''D:'')]],
       previous_sample := None \<rparr>"
  by (simp_all add: disk_run_def eval_defs disk_sampler_eq)

lemma disk_run_trace:
  "length (filter is_query_start (trace (snd (snd disk_run)))) = 1"
  "length (filter is_exec_query (trace (snd (snd disk_run)))) = 1"
  "filter is_qualifier_read (trace (snd (snd disk_run))) =
     [ReadQualifiers ''Name'', ReadQualifiers ''Name'']"
  by (simp_all add: disk_run_def eval_defs disk_sampler_eq)

lemma null_run_raises: "fst null_run = Inl TypeError"
  by (simp add: null_run_def eval_defs disk_sampler_eq)

lemma failed_run_sampler:
  "fst failed_run = Inr ()"
  "fst (snd failed_run) = raw_sampler
     \<lparr> property_counter_types := Some [],
       current_sample := Some [], previous_sample := Some [] \<rparr>"
  by (simp_all add: failed_run_def eval_defs raw_sampler_eq)

lemma query_exec_count:
  assumes "query fb oc (s, w) = (Inr res, s', w')" and "connecting oc = Connects"
  shows "length (filter is_exec_query (trace w')) = Suc (length (filter is_exec_query (trace w)))"
  using assms(1)
proof (cases rule: query_cases)
  case (filter_error e h1 fs1)
  then show ?thesis by simp
next
  case (no_connection clause h1 fs1 wql s2 w2 w3)
  then show ?thesis using get_connection_connects[of s2 w2] assms(2) by fastforce
next
  case (exec_error clause h1 fs1 wql s2 w2 w3 c fl)
  have q: "filter is_exec_query (trace w3) = filter is_exec_query (trace w2)"
    by (rule get_connection_quiet[OF exec_error(4)]) simp_all
  show ?thesis using exec_error(3,8) q by simp
next
  case (parsed clause h1 fs1 wql s2 w2 w3 c fl raw)
  have q: "filter is_exec_query (trace w3) = filter is_exec_query (trace w2)"
    by (rule get_connection_quiet[OF parsed(4)]) simp_all
  have p: "filter is_exec_query (trace w') =
        filter is_exec_query (trace (emit (ExecQuery c wql fl) w3))"
    by (rule parse_results_quiet[OF parsed(6)]) simp_all
  show ?thesis using parsed(3) q p by simp
qed

section \<open>Reads of the qualifiers of one property\<close>

text \<open>
  Parsing a property that carries a \<^verbatim>\<open>CounterType\<close> whenever its name is \<open>k\<close>: the
  qualifiers of \<open>k\<close> have been read at most once more than at the start, and when they
  have been read, \<open>k\<close> is in the counter types.
\<close>

lemma parse_property_reads:
  assumes "parse_property fb inc p (i, s, w) = (r, i', s', w')"
    and "lower (Name p) = k \<longrightarrow> has_counter_type p"
    and "filter (reads_property k) (trace w) = base \<or>
         (length (filter (reads_property k) (trace w)) = Suc (length base) \<and>
          (\<exists>d. property_counter_types s = Some d \<and> map_of d k \<noteq> None))"
  shows "filter (reads_property k) (trace w') = base \<or>
         (length (filter (reads_property k) (trace w')) = Suc (length base) \<and>
          (\<exists>d. property_counter_types s' = Some d \<and> map_of d k \<noteq> None))"
proof (cases "inc \<and> (\<exists>d. property_counter_types s = Some d \<and> \<not> ci_contains (Name p) d)")
  case False
  then have "s' = s \<and> w' = w"
    using assms(1)
    by (auto simp: parse_property_def Let_def split: option.splits if_splits sum.splits)
  then show ?thesis using assms(3) by simp
next
  case True
  then obtain d where d: "property_counter_types s = Some d" "\<not> ci_contains (Name p) d" "inc"
    by auto
  obtain s1 w1 where g: "get_qualifier_type p d (s, w) = (s1, w1)"
    by (cases "get_qualifier_type p d (s, w)") auto
  have sw: "s' = s1 \<and> w' = w1"
    using assms(1) d g
    by (auto simp: parse_property_def Let_def split: option.splits if_splits sum.splits)
  show ?thesis
  proof (cases "lower (Name p) = k")
    case True
    then have "map_of d k = None" using d(2) by (simp add: ci_contains_def)
    then have b: "filter (reads_property k) (trace w) = base" using assms(3) d(1) by auto
    from True assms(2) obtain ct where ct: "map_of (rev (Qualifiers p)) ''CounterType'' = Some ct"
      by (auto simp: has_counter_type_def)
    have "length (filter (reads_property k) (trace w1)) = Suc (length base) \<and>
          (\<exists>d. property_counter_types s1 = Some d \<and> map_of d k \<noteq> None)"
      using g ct True b
      by (auto simp: get_qualifier_type_def Let_def ci_setitem_def update_conv')
    then show ?thesis using sw by simp
  next
    case False
    have "filter (reads_property k) (trace w1) = filter (reads_property k) (trace w) \<and>
          (\<forall>d0. property_counter_types s = Some d0 \<and> map_of d0 k \<noteq> None \<longrightarrow>
             (\<exists>d1. property_counter_types s1 = Some d1 \<and> map_of d1 k \<noteq> None))"
      using g False d(1)
      by (auto simp: get_qualifier_type_def Let_def ci_setitem_def update_conv'
          split: option.splits)
    then show ?thesis using sw assms(3) by auto
  qed
qed


lemma parse_results_reads:
  assumes "parse_results fb raw inc (s, w) = (r, s', w')"
    and "list_all (list_all (\<lambda>p. lower (Name p) = k \<longrightarrow> has_counter_type p)) raw"
  shows "length (filter (reads_property k) (trace w'))
           \<le> Suc (length (filter (reads_property k) (trace w)))"
proof -
  define base where "base = filter (reads_property k) (trace w)"
  have "filter (reads_property k) (trace w') = base \<or>
         (length (filter (reads_property k) (trace w')) = Suc (length base) \<and>
          (\<exists>d. property_counter_types s' = Some d \<and> map_of d k \<noteq> None))"
  proof (rule parse_results_inv[where Q = "\<lambda>s w. filter (reads_property k) (trace w) = base \<or>
         (length (filter (reads_property k) (trace w)) = Suc (length base) \<and>
          (\<exists>d. property_counter_types s = Some d \<and> map_of d k \<noteq> None))", OF assms(1)])
    show "filter (reads_property k) (trace w) = base \<or>
         (length (filter (reads_property k) (trace w)) = Suc (length base) \<and>
          (\<exists>d. property_counter_types s = Some d \<and> map_of d k \<noteq> None))"
      by (simp add: base_def)
  next
    fix res p i s w r i' s' w'
    assume a: "res \<in> set raw" "p \<in> set res"
      "filter (reads_property k) (trace w) = base \<or>
         (length (filter (reads_property k) (trace w)) = Suc (length base) \<and>
          (\<exists>d. property_counter_types s = Some d \<and> map_of d k \<noteq> None))"
      "parse_property fb inc p (i, s, w) = (r, i', s', w')"
    have "lower (Name p) = k \<longrightarrow> has_counter_type p"
      using assms(2) a(1,2) by (auto simp: list_all_iff)
    from parse_property_reads[OF a(4) this a(3)]
    show "filter (reads_property k) (trace w') = base \<or>
         (length (filter (reads_property k) (trace w')) = Suc (length base) \<and>
          (\<exists>d. property_counter_types s' = Some d \<and> map_of d k \<noteq> None))" .
  qed
  then show ?thesis by (auto simp: base_def)
qed

text \<open>Over a query: no read of \<open>k\<close> once the counter types are initialised, at most one
  before, and they are initialised as soon as the filters are rendered.\<close>

lemma query_reads:
  assumes "query fb oc (s, w) = (r, s', w')" and "counter_in_rows k oc"
    and "(property_counter_types s = None \<and> filter (reads_property k) (trace w) = base) \<or>
         (property_counter_types s \<noteq> None \<and>
          length (filter (reads_property k) (trace w)) \<le> Suc (length base))"
  shows "(property_counter_types s' = None \<and> filter (reads_property k) (trace w') = base) \<or>
         (property_counter_types s' \<noteq> None \<and>
          length (filter (reads_property k) (trace w')) \<le> Suc (length base))"
  using assms(1)
proof (cases rule: query_cases)
  case (filter_error e h1 fs1)
  then show ?thesis using assms(3) by simp
next
  case (no_connection clause h1 fs1 wql s2 w2 w3)
  have q: "filter (reads_property k) (trace w3) = filter (reads_property k) (trace w2)"
    by (rule get_connection_quiet[OF no_connection(4)]) simp_all
  show ?thesis using no_connection(2,3,6,7) q assms(3) by auto
next
  case (exec_error clause h1 fs1 wql s2 w2 w3 c fl)
  have q: "filter (reads_property k) (trace w3) = filter (reads_property k) (trace w2)"
    by (rule get_connection_quiet[OF exec_error(4)]) simp_all
  show ?thesis using exec_error(2,3,7,8) q assms(3) by auto
next
  case (parsed clause h1 fs1 wql s2 w2 w3 c fl raw)
  have q: "filter (reads_property k) (trace w3) = filter (reads_property k) (trace w2)"
    by (rule get_connection_quiet[OF parsed(4)]) simp_all
  then have t: "filter (reads_property k) (trace (emit (ExecQuery c wql fl) w3)) =
      filter (reads_property k) (trace w)"
    using parsed(3) by simp
  have k: "property_counter_types s' \<noteq> None"
    by (rule parse_results_keeps_counter_types[OF parsed(6)]) (simp add: parsed(2))
  show ?thesis
  proof (cases "property_counter_types s = None")
    case True
    have "list_all (list_all (\<lambda>p. lower (Name p) = k \<longrightarrow> has_counter_type p)) raw"
      using assms(2) parsed(5) by (simp add: counter_in_rows_def)
    from parse_results_reads[OF parsed(6) this]
    show ?thesis using t k True assms(3) by auto
  next
    case False
    then have "(property_counter_types s = None) = False" by simp
    then have "parse_results fb raw False (s2, emit (ExecQuery c wql fl) w3) = (r, s', w')"
      using parsed(6) by (simp only:)
    from parse_results_no_qualifiers[OF this]
    show ?thesis using t k False assms(3) by auto
  qed
qed

lemma sample_reads:
  assumes "sample fb oc0 oc (s, w) = (r, s', w')"
    and "counter_in_rows k oc0" and "counter_in_rows k oc"
    and "(property_counter_types s = None \<and> filter (reads_property k) (trace w) = base) \<or>
         (property_counter_types s \<noteq> None \<and>
          length (filter (reads_property k) (trace w)) \<le> Suc (length base))"
  shows "(property_counter_types s' = None \<and> filter (reads_property k) (trace w') = base) \<or>
         (property_counter_types s' \<noteq> None \<and>
          length (filter (reads_property k) (trace w')) \<le> Suc (length base))"
  using assms(1)
proof (cases rule: sample_cases)
  case (initial_raises e)
  show ?thesis
    by (rule query_reads[OF initial_raises(3) assms(2)]) (use assms(4) in simp)
next
  case (initial res0 s0 w0 r1 s3 w3)
  have a: "(property_counter_types s0 = None \<and> filter (reads_property k) (trace w0) = base) \<or>
         (property_counter_types s0 \<noteq> None \<and>
          length (filter (reads_property k) (trace w0)) \<le> Suc (length base))"
    by (rule query_reads[OF initial(3) assms(2)]) (use assms(4) in simp)
  have b: "(property_counter_types s3 = None \<and> filter (reads_property k) (trace w3) = base) \<or>
         (property_counter_types s3 \<noteq> None \<and>
          length (filter (reads_property k) (trace w3)) \<le> Suc (length base))"
    by (rule query_reads[OF initial(4) assms(3)]) (use a in simp)
  show ?thesis using initial(5) b by (cases r1) auto
next
  case (plain r1 s3 w3)
  have b: "(property_counter_types s3 = None \<and> filter (reads_property k) (trace w3) = base) \<or>
         (property_counter_types s3 \<noteq> None \<and>
          length (filter (reads_property k) (trace w3)) \<le> Suc (length base))"
    by (rule query_reads[OF plain(2) assms(3)]) (use assms(4) in simp)
  show ?thesis using plain(3) b by (cases r1) auto
qed

lemma samples_reads:
  assumes "samples fb ocs (s, w) = (s', w')"
    and "list_all (\<lambda>(oc0, oc). counter_in_rows k oc0 \<and> counter_in_rows k oc) ocs"
    and "(property_counter_types s = None \<and> filter (reads_property k) (trace w) = base) \<or>
         (property_counter_types s \<noteq> None \<and>
          length (filter (reads_property k) (trace w)) \<le> Suc (length base))"
  shows "(property_counter_types s' = None \<and> filter (reads_property k) (trace w') = base) \<or>
         (property_counter_types s' \<noteq> None \<and>
          length (filter (reads_property k) (trace w')) \<le> Suc (length base))"
  using assms
proof (induction ocs arbitrary: s w)
  case Nil
  then show ?case by simp
next
  case (Cons p ocs)
  obtain oc0 oc where p: "p = (oc0, oc)" by (cases p) auto
  obtain r1 s1 w1 where s1: "sample fb oc0 oc (s, w) = (r1, s1, w1)"
    by (cases "sample fb oc0 oc (s, w)") auto
  have c: "counter_in_rows k oc0" "counter_in_rows k oc"
    "list_all (\<lambda>(oc0, oc). counter_in_rows k oc0 \<and> counter_in_rows k oc) ocs"
    using Cons.prems(2) p by simp_all
  note i = sample_reads[OF s1 c(1,2) Cons.prems(3)]
  have "samples fb ocs (s1, w1) = (s', w')" using Cons.prems(1) p s1 by simp
  from Cons.IH[OF this c(3) i] show ?case .
qed

section \<open>Queries that raise \<^verbatim>\<open>com_error\<close>\<close>

lemma get_connection_fails:
  "wmi_connections w (connection_key s) = None \<Longrightarrow> co \<noteq> Connects \<Longrightarrow>
   fst (get_connection co s w) = Inl ComError"
  by (cases co) (simp_all add: get_connection_def Let_def)

lemma connection_key_update [simp]:
  "connection_key (s\<lparr>filters := f, property_counter_types := c\<rparr>) = connection_key s"
  "connection_key (s\<lparr>previous_sample := p\<rparr>) = connection_key s"
  by (simp_all add: connection_key_def)

text \<open>A query whose \<^verbatim>\<open>try\<close> block raises \<^verbatim>\<open>com_error\<close>, once the filters are rendered.\<close>

lemma query_com_error:
  assumes "com_error_raised oc s w"
    and "fst (format_filter (dicts w) (filters s)) = Inr clause"
    and "query fb oc (s, w) = (r, s', w')"
  shows "r = Inr [] \<and> filters s' = [] \<and>
    property_counter_types s' =
       Some (case property_counter_types s of None \<Rightarrow> [] | Some d \<Rightarrow> d) \<and>
    length (filter is_warning (trace w')) = Suc (length (filter is_warning (trace w))) \<and>
    filter is_qualifier_read (trace w') = filter is_qualifier_read (trace w)"
  using assms(3)
proof (cases rule: query_cases)
  case (filter_error e h1 fs1)
  then show ?thesis using assms(2) by simp
next
  case (no_connection clause h1 fs1 wql s2 w2 w3)
  note e = format_filter_leaves_empty[OF no_connection(1)]
  have q: "filter is_qualifier_read (trace w3) = filter is_qualifier_read (trace w2)"
    "filter is_warning (trace w3) = filter is_warning (trace w2)"
    by (rule get_connection_quiet[OF no_connection(4)]; simp)+
  show ?thesis using no_connection(2,3,5,6,7) q e by simp
next
  case (exec_error clause h1 fs1 wql s2 w2 w3 c fl)
  note e = format_filter_leaves_empty[OF exec_error(1)]
  have q: "filter is_qualifier_read (trace w3) = filter is_qualifier_read (trace w2)"
    "filter is_warning (trace w3) = filter is_warning (trace w2)"
    by (rule get_connection_quiet[OF exec_error(4)]; simp)+
  show ?thesis using exec_error(2,3,6,7,8) q e by simp
next
  case (parsed clause h1 fs1 wql s2 w2 w3 c fl raw)
  have "wmi_connections w2 (connection_key s2) = None" "connecting oc \<noteq> Connects"
    using assms(1) parsed(2,3,5) by (simp_all add: com_error_raised_def)
  from get_connection_fails[OF this] show ?thesis using parsed(4) by simp
qed

section \<open>What a query returns\<close>

lemma parse_property_item:
  "parse_property fb inc p (i, s, w) = (Inr u, i', s', w') \<Longrightarrow>
   i' = ci_setitem (Name p) (stored_value fb (Value p)) i"
  by (auto simp: parse_property_def stored_value_def Let_def
      split: option.splits if_splits sum.splits prod.splits)

lemma parse_properties_item:
  "parse_properties fb inc ps (i, s, w) = (Inr u, i', s', w') \<Longrightarrow>
   i' = foldl (\<lambda>item p. ci_setitem (Name p) (stored_value fb (Value p)) item) i ps"
proof (induction ps arbitrary: i s w)
  case Nil
  then show ?case by simp
next
  case (Cons p ps)
  obtain r1 i1 s1 w1 where p1: "parse_property fb inc p (i, s, w) = (r1, i1, s1, w1)"
    by (cases "parse_property fb inc p (i, s, w)") auto
  show ?case
  proof (cases r1)
    case (Inl e)
    then show ?thesis using Cons.prems p1 by simp
  next
    case (Inr u1)
    then have step: "parse_properties fb inc ps (i1, s1, w1) = (Inr u, i', s', w')"
      using Cons.prems p1 by simp
    have "i1 = ci_setitem (Name p) (stored_value fb (Value p)) i"
      using parse_property_item p1 Inr by blast
    then show ?thesis using Cons.IH[OF step] by simp
  qed
qed

lemma parse_object_item:
  "parse_object fb inc res (s, w) = (Inr item, s', w') \<Longrightarrow>
   item = item_of fb (property_names s) res"
  by (auto simp: parse_object_def item_of_def Let_def split: prod.splits sum.splits
      dest: parse_properties_item)

lemma parse_objects_items:
  "parse_objects fb inc raw acc (s, w) = (Inr results, s', w') \<Longrightarrow>
   results = acc @ map (item_of fb (property_names s)) raw"
proof (induction raw arbitrary: acc s w)
  case Nil
  then show ?case by simp
next
  case (Cons res raw)
  obtain r1 s1 w1 where p1: "parse_object fb inc res (s, w) = (r1, s1, w1)"
    by (cases "parse_object fb inc res (s, w)") auto
  show ?case
  proof (cases r1)
    case (Inl e)
    then show ?thesis using Cons.prems p1 by simp
  next
    case (Inr item)
    then have step: "parse_objects fb inc raw (acc @ [item]) (s1, w1) = (Inr results, s', w')"
      using Cons.prems p1 by simp
    have i: "item = item_of fb (property_names s) res"
      using parse_object_item p1 Inr by blast
    have n: "property_names s1 = property_names s"
      using parse_object_frame[OF p1] by auto
    show ?thesis using Cons.IH[OF step] i n by simp
  qed
qed

lemma parse_results_items:
  "parse_results fb raw inc (s, w) = (Inr results, s', w') \<Longrightarrow>
   results = map (item_of fb (property_names s)) raw"
  by (auto simp: parse_results_def dest: parse_objects_items)

lemma get_connection_raises:
  "get_connection co s w = (Inl e, w') \<Longrightarrow>
   wmi_connections w (connection_key s) = None \<and> co \<noteq> Connects"
  by (auto simp: get_connection_def Let_def split: option.splits if_splits)

lemma get_connection_returns:
  "get_connection co s w = (Inr c, w') \<Longrightarrow>
   \<not> (wmi_connections w (connection_key s) = None \<and> co \<noteq> Connects)"
  using get_connection_fails[of w s co] by auto

text \<open>A query that returns gives the sample that it is to give.\<close>

lemma query_result:
  assumes "query fb oc (s, w) = (Inr res, s', w')"
  shows "res = query_items fb oc s w"
  using assms
proof (cases rule: query_cases)
  case (filter_error e h1 fs1)
  then show ?thesis by simp
next
  case (no_connection clause h1 fs1 wql s2 w2 w3)
  from get_connection_raises[OF no_connection(4)]
  have "com_error_raised oc s w"
    using no_connection(2,3) by (simp add: com_error_raised_def)
  then show ?thesis using no_connection(5) by (simp add: query_items_def)
next
  case (exec_error clause h1 fs1 wql s2 w2 w3 c fl)
  then show ?thesis by (simp add: query_items_def com_error_raised_def)
next
  case (parsed clause h1 fs1 wql s2 w2 w3 c fl raw)
  from get_connection_returns[OF parsed(4)]
  have "\<not> com_error_raised oc s w"
    using parsed(2,3,5) by (simp add: com_error_raised_def)
  moreover have "res = map (item_of fb (property_names s2)) raw"
    using parse_results_items[OF parsed(6)] .
  ultimately show ?thesis using parsed(2,5) by (simp add: query_items_def rows_of_def)
qed

lemma query_items_cong:
  assumes "property_names s1 = property_names s" "connection_key s1 = connection_key s"
    "wmi_connections w1 = wmi_connections w"
  shows "query_items fb oc s1 w1 = query_items fb oc s w"
  using assms by (simp add: query_items_def com_error_raised_def)

lemma query_connection_key:
  "query fb oc (s, w) = (r, s', w') \<Longrightarrow> connection_key s' = connection_key s \<and>
     property_names s' = property_names s"
  using query_frame[of fb oc s w r s' w'] by (auto simp: connection_key_def)

text \<open>With a server that accepts connections, the sample is the Items of the rows.\<close>

lemma query_items_connects:
  "connecting oc = Connects \<Longrightarrow>
   query_items fb oc s w = map (item_of fb (property_names s)) (rows_of oc)"
  by (auto simp: query_items_def com_error_raised_def rows_of_def)

section \<open>No \<^verbatim>\<open>com_error\<close> leaves \<^verbatim>\<open>sample\<close>\<close>

lemma build_where_clause_error:
  "build_where_clause h fs = (Inl e, h', fs') \<Longrightarrow> e \<noteq> ComError"
proof (induction fs arbitrary: h e h' fs' rule: rev_induct)
  case Nil
  then show ?case by (subst (asm) build_where_clause.simps) (auto simp: list_pop_def)
next
  case (snoc f fs)
  show ?case
  proof (cases "h f = []")
    case True
    then show ?thesis using snoc.prems
      by (subst (asm) build_where_clause.simps) (auto simp: list_pop_def popitem_def)
  next
    case False
    note eq = snoc.prems[unfolded bwc_snoc[of h f fs, OF False]]
    show ?thesis
    proof (cases "fs = []")
      case True
      then show ?thesis using eq by (simp add: Let_def)
    next
      case fne: False
      obtain r h2 f2 where b: "build_where_clause (h(f := butlast (h f))) fs = (r, h2, f2)"
        by (cases "build_where_clause (h(f := butlast (h f))) fs") auto
      show ?thesis
      proof (cases r)
        case (Inl e2)
        then have "e2 \<noteq> ComError" using snoc.IH b by blast
        then show ?thesis using eq fne b Inl by (simp add: Let_def)
      next
        case (Inr c2)
        then show ?thesis using eq fne b by (simp add: Let_def)
      qed
    qed
  qed
qed

lemma format_filter_error:
  "format_filter h fs = (Inl e, h', fs') \<Longrightarrow> e \<noteq> ComError"
  by (auto simp: format_filter_def split: if_splits prod.splits sum.splits
      dest: build_where_clause_error)

lemma query_not_com_error:
  assumes "query fb oc (s, w) = (Inl e, s', w')"
  shows "e \<noteq> ComError"
  using assms
proof (cases rule: query_cases)
  case (filter_error e1 h1 fs1)
  then show ?thesis using format_filter_error by blast
next
  case (parsed clause h1 fs1 wql s2 w2 w3 c fl raw)
  then show ?thesis using parse_results_error by blast
qed simp_all

lemma sample_not_com_error:
  assumes "sample fb oc0 oc (s, w) = (r, s', w')"
  shows "r \<noteq> Inl ComError"
  using assms
proof (cases rule: sample_cases)
  case (initial_raises e)
  then show ?thesis using query_not_com_error by blast
next
  case (initial res0 s0 w0 r1 s3 w3)
  then show ?thesis using query_not_com_error[of fb oc _ _ _ s3 w3] by (cases r1) auto
next
  case (plain r1 s3 w3)
  then show ?thesis using query_not_com_error[of fb oc _ _ _ s3 w3] by (cases r1) auto
qed

section \<open>The invariant of the samples\<close>

lemma sampler_inv_init: "sampler_inv (init_sampler cls props fltrs h ns user pw)"
  by (simp add: sampler_inv_def init_sampler_def Let_def)

lemma sample_keeps_inv:
  assumes "sample fb oc0 oc (s, w) = (r, s', w')" and "sampler_inv s"
  shows "sampler_inv s'"
  using assms(1)
proof (cases rule: sample_cases)
  case (initial_raises e)
  then show ?thesis using query_samples[OF initial_raises(3)] assms(2)
    by (simp add: sampler_inv_def)
next
  case (initial res0 s0 w0 r1 s3 w3)
  note q = query_samples[OF initial(4)]
  show ?thesis using initial(5) q by (cases r1) (auto simp: sampler_inv_def)
next
  case (plain r1 s3 w3)
  note q = query_samples[OF plain(2)]
  show ?thesis using plain(3) q by (cases r1) (auto simp: sampler_inv_def)
qed

lemma samples_keep_inv:
  "samples fb ocs (s, w) = (s', w') \<Longrightarrow> sampler_inv s \<Longrightarrow> sampler_inv s'"
proof (induction ocs arbitrary: s w)
  case Nil
  then show ?case by simp
next
  case (Cons p ocs)
  obtain oc0 oc where p: "p = (oc0, oc)" by (cases p) auto
  obtain r1 s1 w1 where s1: "sample fb oc0 oc (s, w) = (r1, s1, w1)"
    by (cases "sample fb oc0 oc (s, w)") auto
  have "samples fb ocs (s1, w1) = (s', w')" using Cons.prems(1) p s1 by simp
  from Cons.IH[OF this sample_keeps_inv[OF s1 Cons.prems(2)]] show ?case .
qed

section \<open>Properties that are not counters\<close>

text \<open>
  While the qualifiers are read, parsing a property that has no \<^verbatim>\<open>CounterType\<close> whenever
  its name is \<open>k\<close> leaves \<open>k\<close> out of the counter types, and reads its qualifiers when
  its name is \<open>k\<close>.
\<close>

lemma parse_property_unrecorded:
  assumes "parse_property fb True p (i, s, w) = (r, i', s', w')"
    and "property_counter_types s = Some d" and "map_of d k = None"
    and "lower (Name p) = k \<longrightarrow> \<not> has_counter_type p"
  shows "\<exists>d'. property_counter_types s' = Some d' \<and> map_of d' k = None \<and>
    length (filter (reads_property k) (trace w')) =
      length (filter (reads_property k) (trace w)) + (if lower (Name p) = k then 1 else 0)"
proof (cases "ci_contains (Name p) d")
  case True
  then have n: "lower (Name p) \<noteq> k" using assms(3) by (auto simp: ci_contains_def)
  have "s' = s \<and> w' = w"
    using assms(1,2) True
    by (auto simp: parse_property_def Let_def split: option.splits if_splits sum.splits)
  then show ?thesis using assms(2,3) n by simp
next
  case False
  obtain s1 w1 where g: "get_qualifier_type p d (s, w) = (s1, w1)"
    by (cases "get_qualifier_type p d (s, w)") auto
  have sw: "s' = s1 \<and> w' = w1"
    using assms(1,2) False g
    by (auto simp: parse_property_def Let_def split: option.splits if_splits sum.splits)
  show ?thesis
  proof (cases "lower (Name p) = k")
    case True
    then have "map_of (rev (Qualifiers p)) ''CounterType'' = None"
      using assms(4) by (simp add: has_counter_type_def)
    then show ?thesis
      using g sw True assms(2,3) by (auto simp: get_qualifier_type_def Let_def)
  next
    case n: False
    show ?thesis
      using g sw n assms(2,3)
      by (auto simp: get_qualifier_type_def Let_def ci_setitem_def update_conv'
          split: option.splits)
  qed
qed

lemma parse_properties_unrecorded:
  assumes "parse_properties fb True ps (i, s, w) = (Inr u, i', s', w')"
    and "property_counter_types s = Some d" and "map_of d k = None"
    and "list_all (\<lambda>p. lower (Name p) = k \<longrightarrow> \<not> has_counter_type p) ps"
  shows "\<exists>d'. property_counter_types s' = Some d' \<and> map_of d' k = None \<and>
    length (filter (reads_property k) (trace w')) =
      length (filter (reads_property k) (trace w)) +
      length (filter (\<lambda>p. lower (Name p) = k) ps)"
  using assms
proof (induction ps arbitrary: i s w d)
  case Nil
  then show ?case by simp
next
  case (Cons p ps)
  obtain r1 i1 s1 w1 where p1: "parse_property fb True p (i, s, w) = (r1, i1, s1, w1)"
    by (cases "parse_property fb True p (i, s, w)") auto
  have c: "lower (Name p) = k \<longrightarrow> \<not> has_counter_type p"
    "list_all (\<lambda>p. lower (Name p) = k \<longrightarrow> \<not> has_counter_type p) ps"
    using Cons.prems(4) by simp_all
  from parse_property_unrecorded[OF p1 Cons.prems(2,3) c(1)] obtain d1 where
    d1: "property_counter_types s1 = Some d1" "map_of d1 k = None"
      "length (filter (reads_property k) (trace w1)) =
        length (filter (reads_property k) (trace w)) + (if lower (Name p) = k then 1 else 0)"
    by auto
  have step: "parse_properties fb True ps (i1, s1, w1) = (Inr u, i', s', w')"
    using Cons.prems(1) p1 by (cases r1) simp_all
  from Cons.IH[OF step d1(1,2) c(2)] d1(3) show ?case by auto
qed

lemma parse_objects_unrecorded:
  assumes "parse_objects fb True raw acc (s, w) = (Inr res, s', w')"
    and "property_counter_types s = Some d" and "map_of d k = None"
    and "list_all (list_all (\<lambda>p. lower (Name p) = k \<longrightarrow> \<not> has_counter_type p)) raw"
  shows "\<exists>d'. property_counter_types s' = Some d' \<and> map_of d' k = None \<and>
    length (filter (reads_property k) (trace w')) =
      length (filter (reads_property k) (trace w)) +
      length (filter (\<lambda>p. lower (Name p) = k) (concat raw))"
  using assms
proof (induction raw arbitrary: acc s w d)
  case Nil
  then show ?case by simp
next
  case (Cons row raw)
  obtain r1 s1 w1 where p1: "parse_object fb True row (s, w) = (r1, s1, w1)"
    by (cases "parse_object fb True row (s, w)") auto
  have c: "list_all (\<lambda>p. lower (Name p) = k \<longrightarrow> \<not> has_counter_type p) row"
    "list_all (list_all (\<lambda>p. lower (Name p) = k \<longrightarrow> \<not> has_counter_type p)) raw"
    using Cons.prems(4) by simp_all
  obtain item where r1: "r1 = Inr item"
    and step: "parse_objects fb True raw (acc @ [item]) (s1, w1) = (Inr res, s', w')"
    using Cons.prems(1) p1 by (cases r1) simp_all
  obtain u i1 where pp: "parse_properties fb True row
      (foldl (\<lambda>item prop_name. ci_setitem prop_name PNone item) [] (property_names s), s, w)
        = (Inr u, i1, s1, w1)"
    using p1 r1 by (auto simp: parse_object_def Let_def split: prod.splits sum.splits)
  from parse_properties_unrecorded[OF pp Cons.prems(2,3) c(1)] obtain d1 where
    d1: "property_counter_types s1 = Some d1" "map_of d1 k = None"
      "length (filter (reads_property k) (trace w1)) =
        length (filter (reads_property k) (trace w)) +
        length (filter (\<lambda>p. lower (Name p) = k) row)"
    by auto
  from Cons.IH[OF step d1(1,2) c(2)] d1(3) show ?case by auto
qed

text \<open>In the query that initialises the counter types, when it returns the rows.\<close>

lemma query_unrecorded:
  assumes "query fb oc (s, w) = (Inr res, s', w')"
    and "property_counter_types s = None" and "\<not> com_error_raised oc s w"
    and "no_counter_in_rows k oc"
  shows "(\<exists>d. property_counter_types s' = Some d \<and> map_of d k = None) \<and>
    length (filter (reads_property k) (trace w')) =
      length (filter (reads_property k) (trace w)) + occurrences k oc"
  using assms(1)
proof (cases rule: query_cases)
  case (filter_error e h1 fs1)
  then show ?thesis by simp
next
  case (no_connection clause h1 fs1 wql s2 w2 w3)
  from get_connection_raises[OF no_connection(4)]
  have "com_error_raised oc s w"
    using no_connection(2,3) by (simp add: com_error_raised_def)
  then show ?thesis using assms(3) by simp
next
  case (exec_error clause h1 fs1 wql s2 w2 w3 c fl)
  then show ?thesis using assms(3) by (simp add: com_error_raised_def)
next
  case (parsed clause h1 fs1 wql s2 w2 w3 c fl raw)
  have q: "filter (reads_property k) (trace w3) = filter (reads_property k) (trace w2)"
    by (rule get_connection_quiet[OF parsed(4)]) simp_all
  then have t: "filter (reads_property k) (trace (emit (ExecQuery c wql fl) w3)) =
      filter (reads_property k) (trace w)"
    using parsed(3) by simp
  have r: "rows_of oc = raw" using parsed(5) by (simp add: rows_of_def)
  have p: "parse_objects fb True raw [] (s2, emit (ExecQuery c wql fl) w3) = (Inr res, s', w')"
    using parsed(6) assms(2) by (simp add: parse_results_def)
  have i: "property_counter_types s2 = Some []" using parsed(2) assms(2) by simp
  have n: "list_all (list_all (\<lambda>p. lower (Name p) = k \<longrightarrow> \<not> has_counter_type p)) raw"
    using assms(4) r by (simp add: no_counter_in_rows_def)
  have m: "map_of ([] :: (string \<times> 'a pyval) list) k = None" by simp
  from parse_objects_unrecorded[OF p i m n]
  show ?thesis using t r by (auto simp: occurrences_def)
qed

section \<open>More concrete inputs, evaluated\<close>

lemma disk_query_eval:
  "fst disk_query = Inr [[(''name'', PStr ''C:'')], [(''name'', PStr ''D:'')]]"
  by (simp add: disk_query_def eval_defs disk_sampler_eq)

lemma last_failed_run_sampler:
  "fst last_failed_run = Inr ()"
  "fst (snd last_failed_run) = raw_sampler
     \<lparr> property_counter_types := Some [(''x'', PInt 65536)],
       current_sample := Some [], previous_sample := Some [x_item 1] \<rparr>"
  by (simp_all add: last_failed_run_def eval_defs raw_sampler_eq x_item_def)

lemma initial_query_eval:
  "fst (query int_floats (returning [[x_property (PInt 1)]])
          (raw_sampler, emit (Debug InitialSample) world0)) = Inr [x_item 1]"
  by (simp add: eval_defs raw_sampler_eq x_item_def)

lemma item_of_x:
  "item_of int_floats (property_names raw_sampler) [x_property (PInt n)] = x_item n"
  by (simp add: item_of_def stored_value_def raw_sampler_eq x_property_def int_floats_def
      ci_setitem_def lower_simps x_item_def)

section \<open>The properties\<close>

text \<open>
  C1 (the code departs from the claim).  The claim: iterating a sampled sampler yields the
  items of the current sample.  After the first \<^verbatim>\<open>sample()\<close> on the raw performance
  class \<^verbatim>\<open>Win32_PerfRawData_PerfOS_System\<close>, the service having returned \<^verbatim>\<open>X = 1\<close> and
  then \<^verbatim>\<open>X = 2\<close>, the current sample holds the item with \<^verbatim>\<open>x = 2\<close> and the previous
  sample the item with \<^verbatim>\<open>x = 1\<close>; iterating yields the item of the previous sample.
\<close>

theorem iter_raw_yields_previous_sample:
  "fst raw_run = Inr () \<and>
   current_sample (fst (snd raw_run)) = Some [x_item 2] \<and>
   previous_sample (fst (snd raw_run)) = Some [x_item 1] \<and>
   sampler_iter (fst (snd raw_run)) = Inr [x_item 1] \<and>
   sampler_iter (fst (snd raw_run)) \<noteq> Inr [x_item 2]"
  by (simp add: raw_run_sampler sampler_iter_def raw_sampler_eq x_item_def)

text \<open>What iteration yields in general: on a class that is not raw, the current sample;
  on a raw class, as many items as the shorter sample has, taken from the previous one.\<close>

lemma sampler_iter_plain:
  "\<not> is_raw_perf_class s \<Longrightarrow> current_sample s = Some cur \<Longrightarrow> sampler_iter s = Inr cur"
  by (simp add: sampler_iter_def)

lemma sampler_iter_raw:
  "is_raw_perf_class s \<Longrightarrow> previous_sample s = Some prev \<Longrightarrow> current_sample s = Some cur \<Longrightarrow>
   sampler_iter s = Inr (take (length cur) prev)"
proof -
  have "map (\<lambda>(a, b). a) (zip prev cur) = take (length cur) prev"
  proof (induction prev arbitrary: cur)
    case Nil
    then show ?case by simp
  next
    case (Cons a prev)
    then show ?case by (cases cur) simp_all
  qed
  then show "is_raw_perf_class s \<Longrightarrow> previous_sample s = Some prev \<Longrightarrow> current_sample s = Some cur \<Longrightarrow>
   sampler_iter s = Inr (take (length cur) prev)"
    by (simp add: sampler_iter_def)
qed

text \<open>
  C2 (the code departs from the claim).  The claim: rendering the filters is pure, and
  the filter list and its mappings are unchanged after the call.  On the filters
  \<^verbatim>\<open>[{'Name': '_Total'}]\<close> the call returns the clause for \<^verbatim>\<open>Name = '_Total'\<close>, and
  leaves the list empty and the mapping without its entry; rendering what is left of
  the same list a second time gives the empty string, not the clause again.
\<close>

theorem format_filter_consumes_filters:
  "format_filter total_filter [0] =
     (Inr ('' WHERE '' @ format_conjunct ''Name'' ''_Total''), total_filter(0 := []), [])
   \<and> format_filter (total_filter(0 := [])) [] = (Inr [], total_filter(0 := []), [])"
proof -
  have "build_where_clause total_filter ([] @ [0]) =
      (Inr (format_conjunct ''Name'' ''_Total''), total_filter(0 := []), [])"
    by (subst bwc_snoc) (simp_all add: total_filter_def conjunct_of_def)
  then show ?thesis by (simp add: format_filter_def)
qed

text \<open>
  C3, as stated, fails: for the filters \<^verbatim>\<open>[{'a': '1'}, {'b': '2'}]\<close> the clause is not
  \<^verbatim>\<open>a = '1' AND b = '2'\<close>.
\<close>

theorem format_filter_order_counterexample:
  "fst (format_filter two_filters [0, 1]) \<noteq>
     Inr ('' WHERE '' @ format_conjunct ''a'' ''1'' @ '' AND '' @ format_conjunct ''b'' ''2'')"
proof -
  have "build_where_clause two_filters [0, 1] =
     (Inr (join '' AND '' (map (\<lambda>a. conjunct_of (two_filters a)) (rev [0, 1]))),
      (\<lambda>a. if a \<in> set [0, 1] then [] else two_filters a), [])"
    by (rule bwc_single) (simp_all add: single_key_def two_filters_simps)
  then show ?thesis
    by (simp add: format_filter_def conjunct_of_def two_filters_simps format_conjunct_def)
qed

text \<open>
  C3, amended.  For a filter list of distinct single-key mappings
  \<^verbatim>\<open>[{p1: v1}, ..., {pn: vn}]\<close>, the clause is \<^verbatim>\<open> WHERE \<close> followed by the conjuncts
  \<^verbatim>\<open>pn = 'vn'\<close> down to \<^verbatim>\<open>p1 = 'v1'\<close>, that is in the reverse of the order of the list,
  joined by \<^verbatim>\<open> AND \<close>; for the empty list the result is the empty string.
\<close>

theorem format_filter_reverse_order:
  assumes "distinct fs" and "\<forall>a\<in>set fs. single_key (h a)"
  shows "fst (format_filter h fs) =
           Inr (if fs = [] then []
                else '' WHERE '' @ join '' AND '' (map (\<lambda>a. conjunct_of (h a)) (rev fs)))"
  using assms by (simp add: format_filter_def bwc_single)

text \<open>The amended C3 at the filters \<^verbatim>\<open>[{'a': '1'}, {'b': '2'}]\<close>.\<close>

theorem format_filter_reverse_order_witness:
  "distinct [0, 1::nat] \<and> single_key (two_filters 0) \<and> single_key (two_filters 1) \<and>
   fst (format_filter two_filters [0, 1]) =
     Inr ('' WHERE '' @ format_conjunct ''b'' ''2'' @ '' AND '' @ format_conjunct ''a'' ''1'')"
proof -
  have d: "distinct [0, 1::nat]" by simp
  have s: "\<forall>a\<in>set [0, 1]. single_key (two_filters a)"
    by (simp add: single_key_def two_filters_simps)
  show ?thesis
    using format_filter_reverse_order [OF d s] d s
    by (simp add: conjunct_of_def two_filters_simps)
qed

text \<open>
  C4, as stated, fails: in the first \<^verbatim>\<open>sample()\<close> on \<^verbatim>\<open>Win32_LogicalDisk\<close>, the service
  returning two rows, the qualifiers of the property \<^verbatim>\<open>Name\<close>, which has no
  \<^verbatim>\<open>CounterType\<close>, are read twice, once for each row, and nothing is recorded for it.
\<close>

theorem qualifiers_reread_counterexample:
  "length (filter (reads_property ''name'') (trace (snd (snd disk_run)))) = 2 \<and>
   property_counter_types (fst (snd disk_run)) = Some []"
  by (simp add: disk_run_def eval_defs disk_sampler_eq)

text \<open>
  C4, amended.  Over any number of calls of \<^verbatim>\<open>sample\<close>, from any state of the sampler:
  the qualifiers of a property that carries a \<^verbatim>\<open>CounterType\<close> qualifier whenever the
  service returns it are read at most once; and once the counter types are initialised
  (which the first query to get past the rendering of the filters does), no qualifiers
  are read any more, of any property.  A property that never carries a \<^verbatim>\<open>CounterType\<close>
  is not recorded: in the query that initialises the counter types, when that query
  returns the rows of the service, its qualifiers are read once for each of its
  occurrences in the rows, that is again for every row, and it is not in the counter
  types afterwards.
\<close>

theorem qualifiers_read_once_for_counters:
  assumes "samples fb ocs (s, w) = (s', w')"
  shows "(list_all (\<lambda>(oc0, oc). counter_in_rows k oc0 \<and> counter_in_rows k oc) ocs \<longrightarrow>
            length (filter (reads_property k) (trace w'))
              \<le> Suc (length (filter (reads_property k) (trace w))))
       \<and> (property_counter_types s \<noteq> None \<longrightarrow>
            filter is_qualifier_read (trace w') = filter is_qualifier_read (trace w))
       \<and> (property_counter_types s1 = None \<and> \<not> com_error_raised oc1 s1 w1 \<and>
          no_counter_in_rows k oc1 \<and> query fb oc1 (s1, w1) = (Inr res, s2, w2) \<longrightarrow>
            length (filter (reads_property k) (trace w2)) =
              length (filter (reads_property k) (trace w1)) + occurrences k oc1 \<and>
            (\<exists>d. property_counter_types s2 = Some d \<and> map_of d k = None))"
proof (intro conjI impI)
  assume a: "list_all (\<lambda>(oc0, oc). counter_in_rows k oc0 \<and> counter_in_rows k oc) ocs"
  have "(property_counter_types s = None \<and>
           filter (reads_property k) (trace w) = filter (reads_property k) (trace w)) \<or>
        (property_counter_types s \<noteq> None \<and>
           length (filter (reads_property k) (trace w))
             \<le> Suc (length (filter (reads_property k) (trace w))))"
    by auto
  from samples_reads[OF assms a this]
  show "length (filter (reads_property k) (trace w'))
          \<le> Suc (length (filter (reads_property k) (trace w)))"
    by auto
next
  assume "property_counter_types s \<noteq> None"
  from samples_initialised[OF assms this]
  show "filter is_qualifier_read (trace w') = filter is_qualifier_read (trace w)" by simp
next
  assume a: "property_counter_types s1 = None \<and> \<not> com_error_raised oc1 s1 w1 \<and>
          no_counter_in_rows k oc1 \<and> query fb oc1 (s1, w1) = (Inr res, s2, w2)"
  then have q: "query fb oc1 (s1, w1) = (Inr res, s2, w2)"
    and n: "property_counter_types s1 = None" and c: "\<not> com_error_raised oc1 s1 w1"
    and r: "no_counter_in_rows k oc1" by simp_all
  from query_unrecorded[OF q n c r]
  show "length (filter (reads_property k) (trace w2)) =
          length (filter (reads_property k) (trace w1)) + occurrences k oc1"
    by simp
next
  assume a: "property_counter_types s1 = None \<and> \<not> com_error_raised oc1 s1 w1 \<and>
          no_counter_in_rows k oc1 \<and> query fb oc1 (s1, w1) = (Inr res, s2, w2)"
  then have q: "query fb oc1 (s1, w1) = (Inr res, s2, w2)"
    and n: "property_counter_types s1 = None" and c: "\<not> com_error_raised oc1 s1 w1"
    and r: "no_counter_in_rows k oc1" by simp_all
  from query_unrecorded[OF q n c r]
  show "\<exists>d. property_counter_types s2 = Some d \<and> map_of d k = None" by simp
qed

text \<open>
  The amended C4 on a raw performance class whose property \<^verbatim>\<open>X\<close> is a counter: over two
  calls of \<^verbatim>\<open>sample\<close> from the fresh sampler, and over two more after its first sample;
  and on the first query of \<^verbatim>\<open>Win32_LogicalDisk\<close>, whose property \<^verbatim>\<open>Name\<close> is not a
  counter and occurs in two rows.
\<close>

theorem qualifiers_read_once_for_counters_witness:
  "list_all (\<lambda>(oc0, oc). counter_in_rows ''x'' oc0 \<and> counter_in_rows ''x'' oc)
     [(returning [[x_property (PInt 1)], [x_property (PInt 2)]], returning [[x_property (PInt 3)]]),
      (failing, returning [[x_property (PInt 4)]])] \<and>
   length (filter (reads_property ''x'') (trace (snd (samples int_floats
     [(returning [[x_property (PInt 1)], [x_property (PInt 2)]], returning [[x_property (PInt 3)]]),
      (failing, returning [[x_property (PInt 4)]])] (raw_sampler, world0))))) \<le> 1 \<and>
   property_counter_types (fst (snd raw_run)) \<noteq> None \<and>
   filter is_qualifier_read (trace (snd (samples int_floats
     [(returning [[x_property (PInt 1)], [x_property (PInt 2)]], returning [[x_property (PInt 3)]]),
      (failing, returning [[x_property (PInt 4)]])] (snd raw_run)))) =
     filter is_qualifier_read (trace (snd (snd raw_run))) \<and>
   property_counter_types disk_sampler = None \<and>
   \<not> com_error_raised (returning [[name_property ''C:''], [name_property ''D:'']])
        disk_sampler world0 \<and>
   no_counter_in_rows ''name'' (returning [[name_property ''C:''], [name_property ''D:'']]) \<and>
   fst disk_query = Inr [[(''name'', PStr ''C:'')], [(''name'', PStr ''D:'')]] \<and>
   occurrences ''name'' (returning [[name_property ''C:''], [name_property ''D:'']]) = 2 \<and>
   length (filter (reads_property ''name'') (trace (snd (snd disk_query)))) = 2 \<and>
   (\<exists>d. property_counter_types (fst (snd disk_query)) = Some d \<and> map_of d ''name'' = None)"
proof -
  let ?ocs = "[(returning [[x_property (PInt 1)], [x_property (PInt 2)]],
                returning [[x_property (PInt 3)]]),
               (failing, returning [[x_property (PInt 4)]])]"
  let ?oc = "returning [[name_property ''C:''], [name_property ''D:'']]"
  have c: "list_all (\<lambda>(oc0, oc). counter_in_rows ''x'' oc0 \<and> counter_in_rows ''x'' oc) ?ocs"
    by (simp add: counter_in_rows_def returning_def failing_def x_property_def
        has_counter_type_def lower_simps)
  have n: "property_counter_types (fst (snd raw_run)) \<noteq> None"
    by (simp add: raw_run_sampler)
  have t: "trace world0 = []" by (simp add: world0_def)
  have a: "samples int_floats ?ocs (raw_sampler, world0) =
      (fst (samples int_floats ?ocs (raw_sampler, world0)),
       snd (samples int_floats ?ocs (raw_sampler, world0)))"
    by (rule surjective_pairing)
  have b: "samples int_floats ?ocs (fst (snd raw_run), snd (snd raw_run)) =
      (fst (samples int_floats ?ocs (snd raw_run)), snd (samples int_floats ?ocs (snd raw_run)))"
    by simp
  have dn: "property_counter_types disk_sampler = None" by (simp add: disk_sampler_eq)
  have dc: "\<not> com_error_raised ?oc disk_sampler world0"
    by (simp add: com_error_raised_def returning_def)
  have dr: "no_counter_in_rows ''name'' ?oc"
    by (simp add: no_counter_in_rows_def rows_of_def returning_def name_property_def
        has_counter_type_def lower_simps)
  have dq: "query int_floats ?oc (disk_sampler, world0) =
      (Inr [[(''name'', PStr ''C:'')], [(''name'', PStr ''D:'')]],
       fst (snd disk_query), snd (snd disk_query))"
    using disk_query_eval by (simp add: disk_query_def prod_eq_iff)
  have oc: "occurrences ''name'' ?oc = 2"
    by (simp add: occurrences_def rows_of_def returning_def name_property_def lower_simps)
  from qualifiers_read_once_for_counters[OF a, of "''x''"] c t
  have 1: "length (filter (reads_property ''x'')
      (trace (snd (samples int_floats ?ocs (raw_sampler, world0))))) \<le> 1"
    by simp
  from qualifiers_read_once_for_counters[OF b, of "''x''"] n
  have 2: "filter is_qualifier_read (trace (snd (samples int_floats ?ocs (snd raw_run)))) =
     filter is_qualifier_read (trace (snd (snd raw_run)))"
    by simp
  have "length (filter (reads_property ''name'') (trace (snd (snd disk_query)))) =
          length (filter (reads_property ''name'') (trace world0)) + occurrences ''name'' ?oc \<and>
        (\<exists>d. property_counter_types (fst (snd disk_query)) = Some d \<and> map_of d ''name'' = None)"
    using qualifiers_read_once_for_counters[OF a] dn dc dr dq by blast
  then have 3: "length (filter (reads_property ''name'') (trace (snd (snd disk_query)))) = 2"
    "\<exists>d. property_counter_types (fst (snd disk_query)) = Some d \<and> map_of d ''name'' = None"
    using oc t by simp_all
  show ?thesis using c 1 n 2 dn dc dr disk_query_eval oc 3 by blast
qed

text \<open>
  C5.  Take a call of \<^verbatim>\<open>sample\<close> whose query, the one that gives the current sample,
  gets a \<^verbatim>\<open>com_error\<close> from \<^verbatim>\<open>ExecQuery\<close>; the sampler is in a state that \<^verbatim>\<open>__init__\<close>
  and \<^verbatim>\<open>sample\<close> produce, and that query is reached: the query for the initial sample,
  when there is one, has returned, and otherwise the filters are rendered without
  error.  Then the call returns without raising, the current sample is the empty list,
  iterating yields nothing, and a warning has been logged.  Moreover no call of
  \<^verbatim>\<open>sample\<close> lets a \<^verbatim>\<open>com_error\<close> out; and every query that fails with a \<^verbatim>\<open>com_error\<close>
  once its filters are rendered, the query for the initial sample included, returns the
  empty list and logs one warning.
\<close>

theorem sample_absorbs_query_failure:
  assumes "exec_result oc = None" and "sampler_inv s"
    and "if is_raw_perf_class s \<and> falsy (previous_sample s)
         then \<exists>res0 s0 w0. query fb oc0 (s, emit (Debug InitialSample) w) = (Inr res0, s0, w0)
         else \<exists>clause. fst (format_filter (dicts w) (filters s)) = Inr clause"
  shows "(\<exists>s' w'. sample fb oc0 oc (s, w) = (Inr (), s', w') \<and>
           current_sample s' = Some [] \<and> sampler_iter s' = Inr [] \<and> sampler_len s' = Inr 0 \<and>
           sampler_inv s' \<and>
           length (filter is_warning (trace w)) < length (filter is_warning (trace w')))
       \<and> fst (sample fb oc0 oc (s, w)) \<noteq> Inl ComError
       \<and> (com_error_raised oc1 s1 w1 \<and> fst (format_filter (dicts w1) (filters s1)) = Inr clause1 \<longrightarrow>
            fst (query fb oc1 (s1, w1)) = Inr [] \<and>
            length (filter is_warning (trace (snd (snd (query fb oc1 (s1, w1)))))) =
              Suc (length (filter is_warning (trace w1))))"
proof (intro conjI impI)
  obtain r s' w' where sm: "sample fb oc0 oc (s, w) = (r, s', w')"
    by (cases "sample fb oc0 oc (s, w)") auto
  have "r = Inr () \<and> current_sample s' = Some [] \<and> sampler_iter s' = Inr [] \<and>
        sampler_len s' = Inr 0 \<and>
        length (filter is_warning (trace w)) < length (filter is_warning (trace w'))"
    using sm
  proof (cases rule: sample_cases)
    case (initial_raises e)
    then show ?thesis using assms(3) by simp
  next
    case (initial res0 s0 w0 r1 s3 w3)
    note a = query_returns[OF initial(3)]
    have wq: "filter is_warning (trace w) = filter is_warning (trace (emit (Debug InitialSample) w))"
      by simp
    have w0: "length (filter is_warning (trace w)) \<le> length (filter is_warning (trace w0))"
      using initial(3)
    proof (cases rule: query_cases)
      case (filter_error e h1 fs1)
      then show ?thesis by simp
    next
      case (no_connection clause h1 fs1 wql s2 w2 w3)
      have "filter is_warning (trace w3) = filter is_warning (trace w2)"
        by (rule get_connection_quiet[OF no_connection(4)]) simp_all
      then show ?thesis using no_connection(3,7) by simp
    next
      case (exec_error clause h1 fs1 wql s2 w2 w3 c fl)
      have "filter is_warning (trace w3) = filter is_warning (trace w2)"
        by (rule get_connection_quiet[OF exec_error(4)]) simp_all
      then show ?thesis using exec_error(3,8) by simp
    next
      case (parsed clause h1 fs1 wql s2 w2 w3 c fl raw)
      have q: "filter is_warning (trace w3) = filter is_warning (trace w2)"
        by (rule get_connection_quiet[OF parsed(4)]) simp_all
      have p: "filter is_warning (trace w0) =
          filter is_warning (trace (emit (ExecQuery c wql fl) w3))"
        by (rule parse_results_quiet[OF parsed(6)]) simp_all
      show ?thesis using parsed(3) q p by simp
    qed
    have "fst (format_filter (dicts w0)
            (filters (s0\<lparr>current_sample := Some res0, previous_sample := Some res0\<rparr>))) = Inr []"
      using a by (simp add: format_filter_Nil)
    note b = query_exec_fails[OF assms(1) this initial(4)]
    note f = query_samples[OF initial(4)]
    show ?thesis
      using initial(1,5) b f w0 by (simp add: sampler_iter_def sampler_len_def)
  next
    case (plain r1 s3 w3)
    from assms(3) plain(1) obtain clause where
      "fst (format_filter (dicts w) (filters s)) = Inr clause" by auto
    then have "fst (format_filter (dicts w) (filters (s\<lparr>previous_sample := current_sample s\<rparr>)))
            = Inr clause"
      by simp
    note b = query_exec_fails[OF assms(1) this plain(2)]
    note f = query_samples[OF plain(2)]
    have "is_raw_perf_class s \<Longrightarrow> current_sample s \<noteq> None"
      using plain(1) assms(2) by (auto simp: falsy_def sampler_inv_def split: option.splits)
    then show ?thesis
      using plain(3) b f by (auto simp: sampler_iter_def sampler_len_def split: option.splits)
  qed
  then show "\<exists>s' w'. sample fb oc0 oc (s, w) = (Inr (), s', w') \<and>
           current_sample s' = Some [] \<and> sampler_iter s' = Inr [] \<and> sampler_len s' = Inr 0 \<and>
           sampler_inv s' \<and>
           length (filter is_warning (trace w)) < length (filter is_warning (trace w'))"
    using sm sample_keeps_inv[OF sm assms(2)] by blast
next
  show "fst (sample fb oc0 oc (s, w)) \<noteq> Inl ComError"
    using sample_not_com_error[of fb oc0 oc s w] by (cases "sample fb oc0 oc (s, w)") auto
next
  assume a: "com_error_raised oc1 s1 w1 \<and>
    fst (format_filter (dicts w1) (filters s1)) = Inr clause1"
  obtain r s' w' where q: "query fb oc1 (s1, w1) = (r, s', w')"
    by (cases "query fb oc1 (s1, w1)") auto
  from a query_com_error[OF _ _ q] show "fst (query fb oc1 (s1, w1)) = Inr []"
    using q by simp
next
  assume a: "com_error_raised oc1 s1 w1 \<and>
    fst (format_filter (dicts w1) (filters s1)) = Inr clause1"
  obtain r s' w' where q: "query fb oc1 (s1, w1) = (r, s', w')"
    by (cases "query fb oc1 (s1, w1)") auto
  from a query_com_error[OF _ _ q]
  show "length (filter is_warning (trace (snd (snd (query fb oc1 (s1, w1)))))) =
              Suc (length (filter is_warning (trace w1)))"
    using q by simp
qed

text \<open>
  C5 on a first sample of a raw performance class whose initial query returns a row and
  whose next query fails, and on a first query that fails.
\<close>

theorem sample_absorbs_query_failure_witness:
  "exec_result failing = None \<and> sampler_inv raw_sampler \<and>
   is_raw_perf_class raw_sampler \<and> falsy (previous_sample raw_sampler) \<and>
   fst (query int_floats (returning [[x_property (PInt 1)]])
          (raw_sampler, emit (Debug InitialSample) world0)) = Inr [x_item 1] \<and>
   fst last_failed_run = Inr () \<and>
   current_sample (fst (snd last_failed_run)) = Some [] \<and>
   previous_sample (fst (snd last_failed_run)) = Some [x_item 1] \<and>
   sampler_iter (fst (snd last_failed_run)) = Inr [] \<and>
   sampler_len (fst (snd last_failed_run)) = Inr 0 \<and>
   0 < length (filter is_warning (trace (snd (snd last_failed_run)))) \<and>
   com_error_raised failing raw_sampler world0 \<and>
   fst (format_filter (dicts world0) (filters raw_sampler)) = Inr [] \<and>
   fst (query int_floats failing (raw_sampler, world0)) = Inr [] \<and>
   length (filter is_warning (trace (snd (snd (query int_floats failing (raw_sampler, world0))))))
     = 1"
proof -
  have e: "exec_result failing = None" by (simp add: failing_def)
  have v: "sampler_inv raw_sampler" by (simp add: sampler_inv_def raw_sampler_eq)
  have b: "is_raw_perf_class raw_sampler" "falsy (previous_sample raw_sampler)"
    by (simp_all add: raw_sampler_eq falsy_def)
  have "query int_floats (returning [[x_property (PInt 1)]])
          (raw_sampler, emit (Debug InitialSample) world0) =
        (Inr [x_item 1],
         fst (snd (query int_floats (returning [[x_property (PInt 1)]])
          (raw_sampler, emit (Debug InitialSample) world0))),
         snd (snd (query int_floats (returning [[x_property (PInt 1)]])
          (raw_sampler, emit (Debug InitialSample) world0))))"
    using initial_query_eval by (simp add: prod_eq_iff)
  then have h: "if is_raw_perf_class raw_sampler \<and> falsy (previous_sample raw_sampler)
         then \<exists>res0 s0 w0. query int_floats (returning [[x_property (PInt 1)]])
                (raw_sampler, emit (Debug InitialSample) world0) = (Inr res0, s0, w0)
         else \<exists>clause. fst (format_filter (dicts world0) (filters raw_sampler)) = Inr clause"
    using b by (simp only: simp_thms if_True) blast
  have c: "com_error_raised failing raw_sampler world0"
    by (simp add: com_error_raised_def failing_def)
  have f: "fst (format_filter (dicts world0) (filters raw_sampler)) = Inr []"
    by (simp add: raw_sampler_eq format_filter_Nil)
  have t: "trace world0 = []" by (simp add: world0_def)
  note th = sample_absorbs_query_failure[OF e v h,
      where ?oc1.0 = failing and ?s1.0 = raw_sampler and ?w1.0 = world0 and ?clause1.0 = "[]"]
  have 1: "current_sample (fst (snd last_failed_run)) = Some [] \<and>
    sampler_iter (fst (snd last_failed_run)) = Inr [] \<and>
    sampler_len (fst (snd last_failed_run)) = Inr 0 \<and>
    0 < length (filter is_warning (trace (snd (snd last_failed_run))))"
    using th t by (auto simp: last_failed_run_def)
  have 2: "fst (query int_floats failing (raw_sampler, world0)) = Inr [] \<and>
   length (filter is_warning (trace (snd (snd (query int_floats failing (raw_sampler, world0))))))
     = 1"
    using th c f t by simp
  show ?thesis
    using e v b initial_query_eval last_failed_run_sampler 1 2 c f by simp
qed

text \<open>
  C6.  When \<^verbatim>\<open>sample\<close> returns: on a raw performance class with no previous sample it has
  made two queries (two calls of \<^verbatim>\<open>_query\<close>, and two calls of \<^verbatim>\<open>ExecQuery\<close> when the
  connection is there), the previous sample is what the first of them gave and the
  current sample what the second gave; on a class that is not raw it has made one query,
  the previous sample is the current sample of before the call and the current sample
  is what the query gave.  What a query gives is the Items of the rows that the service
  returned, one for each row and in their order, or the empty sample when the query
  failed with a \<^verbatim>\<open>com_error\<close>.
\<close>

theorem sample_issues_queries:
  assumes "sample fb oc0 oc (s, w) = (Inr (), s', w')"
  shows "(is_raw_perf_class s \<and> previous_sample s = None \<longrightarrow>
            length (filter is_query_start (trace w')) =
              length (filter is_query_start (trace w)) + 2 \<and>
            (connecting oc0 = Connects \<and> connecting oc = Connects \<longrightarrow>
               length (filter is_exec_query (trace w')) =
                 length (filter is_exec_query (trace w)) + 2 \<and>
               previous_sample s' = Some (map (item_of fb (property_names s)) (rows_of oc0)) \<and>
               current_sample s' = Some (map (item_of fb (property_names s)) (rows_of oc))) \<and>
            current_sample s' \<noteq> None \<and> previous_sample s' \<noteq> None \<and>
            previous_sample s' = Some (query_items fb oc0 s w) \<and>
            (\<exists>r0 s0 w0. query fb oc0 (s, emit (Debug InitialSample) w) = (r0, s0, w0) \<and>
               current_sample s' = Some (query_items fb oc s w0)))
       \<and> (\<not> is_raw_perf_class s \<longrightarrow>
            length (filter is_query_start (trace w')) =
              length (filter is_query_start (trace w)) + 1 \<and>
            (connecting oc = Connects \<longrightarrow>
               length (filter is_exec_query (trace w')) =
                 length (filter is_exec_query (trace w)) + 1 \<and>
               current_sample s' = Some (map (item_of fb (property_names s)) (rows_of oc))) \<and>
            previous_sample s' = current_sample s \<and>
            current_sample s' = Some (query_items fb oc s w))"
  using assms
proof (cases rule: sample_cases)
  case (initial_raises e)
  then show ?thesis by simp
next
  case (initial res0 s0 w0 r1 s3 w3)
  from initial(5) obtain res where r1: "r1 = Inr res"
    and s': "s' = s3\<lparr>current_sample := Some res\<rparr>"
    and w': "w' = emit (Debug (SampleMsg (Some res))) w3"
    by (cases r1) auto
  note a = query_returns[OF initial(3)]
  note b = query_returns[OF initial(4)[unfolded r1]]
  note f = query_samples[OF initial(4)]
  note k0 = query_connection_key[OF initial(3)]
  have i0: "res0 = query_items fb oc0 s w"
    using query_result[OF initial(3)]
    by (simp add: query_items_def com_error_raised_def)
  have i1: "res = query_items fb oc s w0"
    using query_result[OF initial(4)[unfolded r1]] k0
    by (simp add: query_items_def com_error_raised_def connection_key_def)
  have e: "connecting oc0 = Connects \<Longrightarrow> connecting oc = Connects \<Longrightarrow>
      length (filter is_exec_query (trace w')) = length (filter is_exec_query (trace w)) + 2"
    using query_exec_count[OF initial(3)] query_exec_count[OF initial(4)[unfolded r1]] w'
    by simp
  have c: "connecting oc0 = Connects \<Longrightarrow> connecting oc = Connects \<Longrightarrow>
      res0 = map (item_of fb (property_names s)) (rows_of oc0) \<and>
      res = map (item_of fb (property_names s)) (rows_of oc)"
    using i0 i1 by (simp add: query_items_connects)
  have x: "\<exists>r0 s0 w0. query fb oc0 (s, emit (Debug InitialSample) w) = (r0, s0, w0) \<and>
               current_sample s' = Some (query_items fb oc s w0)"
    using initial(3) i1 s' by auto
  show ?thesis using initial(1) a b f s' w' e c i0 x by simp
next
  case (plain r1 s3 w3)
  from plain(3) obtain res where r1: "r1 = Inr res"
    and s': "s' = s3\<lparr>current_sample := Some res\<rparr>"
    and w': "w' = emit (Debug (SampleMsg (Some res))) w3"
    by (cases r1) auto
  note b = query_returns[OF plain(2)[unfolded r1]]
  note f = query_samples[OF plain(2)]
  have i1: "res = query_items fb oc s w"
    using query_result[OF plain(2)[unfolded r1]]
    by (simp add: query_items_def com_error_raised_def connection_key_def)
  have e: "connecting oc = Connects \<Longrightarrow>
      length (filter is_exec_query (trace w')) = length (filter is_exec_query (trace w)) + 1"
    using query_exec_count[OF plain(2)[unfolded r1]] w' by simp
  have c: "connecting oc = Connects \<Longrightarrow> res = map (item_of fb (property_names s)) (rows_of oc)"
    using i1 by (simp add: query_items_connects)
  have n: "is_raw_perf_class s \<Longrightarrow> previous_sample s \<noteq> None"
    using plain(1) by (auto simp: falsy_def split: option.splits)
  show ?thesis using b f s' w' e c i1 n by auto
qed

text \<open>C6 on the first samples of a raw performance class and of a class that is not raw.\<close>

theorem sample_issues_queries_witness:
  "fst raw_run = Inr () \<and> is_raw_perf_class raw_sampler \<and> previous_sample raw_sampler = None \<and>
   length (filter is_query_start (trace (snd (snd raw_run)))) = 2 \<and>
   length (filter is_exec_query (trace (snd (snd raw_run)))) = 2 \<and>
   previous_sample (fst (snd raw_run)) = Some [x_item 1] \<and>
   current_sample (fst (snd raw_run)) = Some [x_item 2] \<and>
   fst disk_run = Inr () \<and> \<not> is_raw_perf_class disk_sampler \<and>
   length (filter is_query_start (trace (snd (snd disk_run)))) = 1 \<and>
   length (filter is_exec_query (trace (snd (snd disk_run)))) = 1 \<and>
   previous_sample (fst (snd disk_run)) = current_sample disk_sampler \<and>
   current_sample (fst (snd disk_run)) =
     Some [[(''name'', PStr ''C:'')], [(''name'', PStr ''D:'')]]"
proof -
  have r: "sample int_floats (returning [[x_property (PInt 1)]]) (returning [[x_property (PInt 2)]])
       (raw_sampler, world0) = (Inr (), fst (snd raw_run), snd (snd raw_run))"
    using raw_run_sampler(1) by (simp add: raw_run_def prod_eq_iff)
  have d: "sample int_floats failing (returning [[name_property ''C:''], [name_property ''D:'']])
       (disk_sampler, world0) = (Inr (), fst (snd disk_run), snd (snd disk_run))"
    using disk_run_sampler(1) by (simp add: disk_run_def prod_eq_iff)
  have c: "connecting (returning [[x_property (PInt 1)]]) = Connects"
    "connecting (returning [[x_property (PInt 2)]]) = Connects"
    "connecting (returning [[name_property ''C:''], [name_property ''D:'']]) = Connects"
    by (simp_all add: returning_def)
  have i: "is_raw_perf_class raw_sampler" "previous_sample raw_sampler = None"
    "\<not> is_raw_perf_class disk_sampler" "trace world0 = []"
    by (simp_all add: raw_sampler_eq disk_sampler_eq world0_def)
  have rows: "rows_of (returning [[x_property (PInt 1)]]) = [[x_property (PInt 1)]]"
    "rows_of (returning [[x_property (PInt 2)]]) = [[x_property (PInt 2)]]"
    "rows_of (returning [[name_property ''C:''], [name_property ''D:'']]) =
       [[name_property ''C:''], [name_property ''D:'']]"
    by (simp_all add: rows_of_def returning_def)
  have items: "item_of int_floats (property_names disk_sampler) [name_property ''C:''] =
      [(''name'', PStr ''C:'')]"
    "item_of int_floats (property_names disk_sampler) [name_property ''D:''] =
      [(''name'', PStr ''D:'')]"
    by (simp_all add: item_of_def stored_value_def disk_sampler_eq name_property_def
        int_floats_def ci_setitem_def lower_simps)
  show ?thesis
    using sample_issues_queries[OF r] sample_issues_queries[OF d] c i rows items item_of_x
      raw_run_sampler(1) disk_run_sampler(1)
    by simp
qed

text \<open>
  C7 (the code departs from the claim).  The claim: a value that cannot be coerced to a
  float is stored unchanged and parsing never raises.  For a row whose property \<^verbatim>\<open>Name\<close>
  is NULL, \<^verbatim>\<open>float(None)\<close> raises \<^verbatim>\<open>TypeError\<close>, which \<^verbatim>\<open>except ValueError\<close> does not
  catch: \<^verbatim>\<open>_parse_results\<close> raises it, and so does \<^verbatim>\<open>sample()\<close>.
\<close>

theorem parse_results_raises_on_null:
  "fst (parse_results int_floats [[null_property]] False (disk_sampler, world0)) = Inl TypeError \<and>
   fst null_run = Inl TypeError"
  by (simp add: null_run_raises parse_results_def parse_object_def parse_property_def
      null_property_def disk_sampler_eq ci_setitem_def lower_simps)

text \<open>What parsing stores for a property when the qualifiers are not read.\<close>

lemma parse_property_stores:
  "py_float fb (Value p) = Inr x \<Longrightarrow>
     parse_property fb False p (item, s, w) = (Inr (), ci_setitem (Name p) (PFloat x) item, s, w)"
  "py_float fb (Value p) = Inl ValueError \<Longrightarrow>
     parse_property fb False p (item, s, w) = (Inr (), ci_setitem (Name p) (Value p) item, s, w)"
  "py_float fb (Value p) = Inl e \<Longrightarrow> e \<noteq> ValueError \<Longrightarrow>
     parse_property fb False p (item, s, w) = (Inl e, item, s, w)"
  by (simp_all add: parse_property_def)

lemma get_connection_caches:
  "get_connection co s w = (Inr c, w1) \<Longrightarrow> wmi_connections w1 (connection_key s) = Some c"
  by (auto simp: get_connection_def Let_def emit_def split: option.splits if_splits)

lemma get_connection_connect_count:
  "get_connection co s w = (r, w1) \<Longrightarrow>
   length (filter is_connect_server (trace w1)) \<le> Suc (length (filter is_connect_server (trace w)))"
  by (auto simp: get_connection_def Let_def emit_def split: option.splits if_splits)

text \<open>
  C8.  When a request for a connection has returned one, a second request by a sampler
  with the same host, namespace and username (whatever its password) returns the same
  connection and does nothing but log the reuse: no locator is created and
  \<^verbatim>\<open>ConnectServer\<close> is not called again, so that the two requests have called it at most once.
\<close>

theorem get_connection_cached:
  assumes "get_connection co1 s1 w = (Inr c, w1)"
    and "host s2 = host s1" and "namespace s2 = namespace s1" and "username s2 = username s1"
  shows "get_connection co2 s2 w1 =
           (Inr c, emit (Debug (UsingCached (host s2) (namespace s2) (username s2))) w1) \<and>
         filter is_connect_server (trace (snd (get_connection co2 s2 w1))) =
           filter is_connect_server (trace w1) \<and>
         length (filter is_connect_server (trace (snd (get_connection co2 s2 w1)))) \<le>
           Suc (length (filter is_connect_server (trace w)))"
proof -
  have k: "connection_key s2 = connection_key s1"
    using assms(2,3,4) by (simp add: connection_key_def)
  have "wmi_connections w1 (connection_key s2) = Some c"
    using get_connection_caches[OF assms(1)] k by simp
  then have g: "get_connection co2 s2 w1 =
           (Inr c, emit (Debug (UsingCached (host s2) (namespace s2) (username s2))) w1)"
    by (simp add: get_connection_def)
  show ?thesis using g get_connection_connect_count[OF assms(1)] by simp
qed


text \<open>
  C8 on two samplers of different classes and passwords, the second request being made
  while the server would refuse a new connection.
\<close>

theorem get_connection_cached_witness:
  "fst (get_connection Connects disk_sampler world0) = Inr 1 \<and>
   host (raw_sampler\<lparr>password := ''secret''\<rparr>) = host disk_sampler \<and>
   namespace (raw_sampler\<lparr>password := ''secret''\<rparr>) = namespace disk_sampler \<and>
   username (raw_sampler\<lparr>password := ''secret''\<rparr>) = username disk_sampler \<and>
   password (raw_sampler\<lparr>password := ''secret''\<rparr>) \<noteq> password disk_sampler \<and>
   fst (get_connection ConnectFails (raw_sampler\<lparr>password := ''secret''\<rparr>)
          (snd (get_connection Connects disk_sampler world0))) = Inr 1 \<and>
   length (filter is_connect_server
     (trace (snd (get_connection ConnectFails (raw_sampler\<lparr>password := ''secret''\<rparr>)
          (snd (get_connection Connects disk_sampler world0)))))) = 1"
proof -
  have g1: "fst (get_connection Connects disk_sampler world0) = Inr 1"
    by (simp add: get_connection_def connection_key_def disk_sampler_eq world0_def emit_def
        Let_def)
  then have g: "get_connection Connects disk_sampler world0 =
      (Inr 1, snd (get_connection Connects disk_sampler world0))"
    by (simp add: prod_eq_iff)
  have c: "length (filter is_connect_server
       (trace (snd (get_connection Connects disk_sampler world0)))) = 1"
    by (simp add: get_connection_def connection_key_def disk_sampler_eq world0_def emit_def
        Let_def)
  have h: "host (raw_sampler\<lparr>password := ''secret''\<rparr>) = host disk_sampler"
    "namespace (raw_sampler\<lparr>password := ''secret''\<rparr>) = namespace disk_sampler"
    "username (raw_sampler\<lparr>password := ''secret''\<rparr>) = username disk_sampler"
    "password (raw_sampler\<lparr>password := ''secret''\<rparr>) \<noteq> password disk_sampler"
    by (simp_all add: raw_sampler_eq disk_sampler_eq)
  show ?thesis
    using get_connection_cached[OF g h(1,2,3), of ConnectFails] g1 c h
    by simp
qed

text \<open>
  C9.  Let the first query that a sampler ever makes render its filters and then fail
  with a \<^verbatim>\<open>com_error\<close>, raised by the connection or by \<^verbatim>\<open>ExecQuery\<close> (in a first
  \<^verbatim>\<open>sample()\<close>, that query is the one for the initial sample when there is one).  Then,
  after this call of \<^verbatim>\<open>sample\<close> and any number of further calls, whatever the service
  returns, the counter types are the empty mapping and no qualifiers have been read.
\<close>

theorem failed_first_query_disables_qualifiers:
  assumes "property_counter_types s = None"
    and "com_error_raised (if is_raw_perf_class s \<and> falsy (previous_sample s) then oc0 else oc) s w"
    and "fst (format_filter (dicts w) (filters s)) = Inr clause"
    and "samples fb ((oc0, oc) # ocs) (s, w) = (s', w')"
  shows "property_counter_types s' = Some [] \<and>
         filter is_qualifier_read (trace w') = filter is_qualifier_read (trace w)"
proof -
  obtain r1 s1 w1 where sm: "sample fb oc0 oc (s, w) = (r1, s1, w1)"
    by (cases "sample fb oc0 oc (s, w)") auto
  have first: "property_counter_types s1 = Some [] \<and>
         filter is_qualifier_read (trace w1) = filter is_qualifier_read (trace w)"
    using sm
  proof (cases rule: sample_cases)
    case (initial_raises e)
    have f: "fst (format_filter (dicts (emit (Debug InitialSample) w)) (filters s)) = Inr clause"
      using assms(3) by simp
    have x: "com_error_raised oc0 s (emit (Debug InitialSample) w)"
      using assms(2) initial_raises(1,2) by (simp add: com_error_raised_def)
    from query_com_error[OF x f initial_raises(3)] show ?thesis by simp
  next
    case (initial res0 s0 w0 r2 s3 w3)
    have f: "fst (format_filter (dicts (emit (Debug InitialSample) w)) (filters s)) = Inr clause"
      using assms(3) by simp
    have x: "com_error_raised oc0 s (emit (Debug InitialSample) w)"
      using assms(2) initial(1,2) by (simp add: com_error_raised_def)
    from query_com_error[OF x f initial(3)]
    have a: "property_counter_types s0 = Some []"
      "filter is_qualifier_read (trace w0) = filter is_qualifier_read (trace w)"
      using assms(1) by simp_all
    have "property_counter_types (s0\<lparr>current_sample := Some res0, previous_sample := Some res0\<rparr>)
            \<noteq> None"
      using a by simp
    from query_initialised[OF initial(4) this]
    have b: "property_counter_types s3 = Some []"
      "filter is_qualifier_read (trace w3) = filter is_qualifier_read (trace w)"
      using a by simp_all
    show ?thesis using initial(5) b by (cases r2) auto
  next
    case (plain r2 s3 w3)
    have f: "fst (format_filter (dicts w) (filters (s\<lparr>previous_sample := current_sample s\<rparr>)))
               = Inr clause"
      using assms(3) by simp
    have x: "com_error_raised oc (s\<lparr>previous_sample := current_sample s\<rparr>) w"
      using assms(2) plain(1) by (simp add: com_error_raised_def)
    from query_com_error[OF x f plain(2)]
    have b: "property_counter_types s3 = Some []"
      "filter is_qualifier_read (trace w3) = filter is_qualifier_read (trace w)"
      using assms(1) by simp_all
    show ?thesis using plain(3) b by (cases r2) auto
  qed
  have rest: "samples fb ocs (s1, w1) = (s', w')" using assms(4) sm by simp
  have "property_counter_types s1 \<noteq> None" using first by simp
  from samples_initialised[OF rest this] first show ?thesis by simp
qed

text \<open>
  C9 on a raw performance class: the first query fails, and the four queries that follow
  return rows whose property carries a \<^verbatim>\<open>CounterType\<close> qualifier.
\<close>

theorem failed_first_query_disables_qualifiers_witness:
  "property_counter_types raw_sampler = None \<and>
   com_error_raised (if is_raw_perf_class raw_sampler \<and> falsy (previous_sample raw_sampler)
                then failing else returning [[x_property (PInt 1)]]) raw_sampler world0 \<and>
   fst (format_filter (dicts world0) (filters raw_sampler)) = Inr [] \<and>
   property_counter_types (fst (samples int_floats
      [(failing, returning [[x_property (PInt 1)]]),
       (returning [[x_property (PInt 2)]], returning [[x_property (PInt 3)]])]
      (raw_sampler, world0))) = Some [] \<and>
   filter is_qualifier_read (trace (snd (samples int_floats
      [(failing, returning [[x_property (PInt 1)]]),
       (returning [[x_property (PInt 2)]], returning [[x_property (PInt 3)]])]
      (raw_sampler, world0)))) = []"
proof -
  have n: "property_counter_types raw_sampler = None" by (simp add: raw_sampler_eq)
  have x: "com_error_raised (if is_raw_perf_class raw_sampler \<and> falsy (previous_sample raw_sampler)
                then failing else returning [[x_property (PInt 1)]]) raw_sampler world0"
    by (simp add: raw_sampler_eq falsy_def failing_def com_error_raised_def)
  have f: "fst (format_filter (dicts world0) (filters raw_sampler)) = Inr []"
    by (simp add: raw_sampler_eq format_filter_Nil)
  have t: "trace world0 = []" by (simp add: world0_def)
  show ?thesis
    using failed_first_query_disables_qualifiers[OF n x f surjective_pairing,
        where fb = int_floats
          and ocs = "[(returning [[x_property (PInt 2)]], returning [[x_property (PInt 3)]])]"]
      n x f t
    by simp
qed

text \<open>
  C10, as stated, fails for the string interface: on the sampler that \<^verbatim>\<open>__init__\<close>
  returns, the current sample is \<^verbatim>\<open>None\<close> and \<^verbatim>\<open>__str__\<close> returns \<^verbatim>\<open>'None'\<close>.
\<close>

theorem fresh_sampler_str_counterexample:
  "current_sample disk_sampler = None \<and> sampler_str no_render disk_sampler = Inr ''None''"
  by (simp add: disk_sampler_eq sampler_str_def)

text \<open>
  C10, amended.  On a freshly constructed sampler the current sample is \<^verbatim>\<open>None\<close>,
  \<^verbatim>\<open>len()\<close> and iteration raise \<^verbatim>\<open>TypeError\<close>, and the string conversion returns
  \<^verbatim>\<open>'None'\<close>; once a first \<^verbatim>\<open>sample()\<close> has returned, the three of them return a result.
\<close>

theorem fresh_sampler_interfaces:
  assumes "s = init_sampler cls props fltrs h ns user pw"
  shows "current_sample s = None \<and> sampler_len s = Inl TypeError \<and>
         sampler_iter s = Inl TypeError \<and> sampler_str str_list s = Inr ''None'' \<and>
         (sample fb oc0 oc (s, w) = (Inr (), s', w') \<longrightarrow>
            (\<exists>n. sampler_len s' = Inr n) \<and> (\<exists>xs. sampler_iter s' = Inr xs) \<and>
            (\<exists>t. sampler_str str_list s' = Inr t))"
proof -
  have f: "current_sample s = None" "previous_sample s = None"
    using assms by (simp_all add: init_sampler_def Let_def)
  have after: "(\<exists>n. sampler_len s' = Inr n) \<and> (\<exists>xs. sampler_iter s' = Inr xs) \<and>
            (\<exists>t. sampler_str str_list s' = Inr t)"
    if sm: "sample fb oc0 oc (s, w) = (Inr (), s', w')"
    using sm
  proof (cases rule: sample_cases)
    case (initial_raises e)
    then show ?thesis by simp
  next
    case (initial res0 s0 w0 r1 s3 w3)
    from initial(5) obtain res where s': "s' = s3\<lparr>current_sample := Some res\<rparr>"
      by (cases r1) auto
    note q = query_samples[OF initial(4)]
    show ?thesis
      using s' q by (simp add: sampler_len_def sampler_iter_def sampler_str_def)
  next
    case (plain r1 s3 w3)
    from plain(3) obtain res where s': "s' = s3\<lparr>current_sample := Some res\<rparr>"
      by (cases r1) auto
    note q = query_samples[OF plain(2)]
    have "\<not> is_raw_perf_class s" using plain(1) f by (simp add: falsy_def)
    then show ?thesis
      using s' q by (simp add: sampler_len_def sampler_iter_def sampler_str_def)
  qed
  show ?thesis
    using f after by (auto simp: sampler_len_def sampler_iter_def sampler_str_def)
qed

text \<open>The amended C10 on the sampler of \<^verbatim>\<open>Win32_LogicalDisk\<close> and its first sample.\<close>

theorem fresh_sampler_interfaces_witness:
  "current_sample disk_sampler = None \<and> sampler_len disk_sampler = Inl TypeError \<and>
   sampler_iter disk_sampler = Inl TypeError \<and>
   sampler_str no_render disk_sampler = Inr ''None'' \<and>
   fst disk_run = Inr () \<and>
   (\<exists>n. sampler_len (fst (snd disk_run)) = Inr n) \<and>
   (\<exists>xs. sampler_iter (fst (snd disk_run)) = Inr xs) \<and>
   (\<exists>t. sampler_str no_render (fst (snd disk_run)) = Inr t)"
proof -
  have d: "sample int_floats failing (returning [[name_property ''C:''], [name_property ''D:'']])
       (disk_sampler, world0) = (Inr (), fst (snd disk_run), snd (snd disk_run))"
    using disk_run_sampler(1) by (simp add: disk_run_def prod_eq_iff)
  have a: "(\<exists>n. sampler_len (fst (snd disk_run)) = Inr n) \<and>
   (\<exists>xs. sampler_iter (fst (snd disk_run)) = Inr xs) \<and>
   (\<exists>t. sampler_str no_render (fst (snd disk_run)) = Inr t)"
    using fresh_sampler_interfaces[OF disk_sampler_def] d by blast
  have b: "current_sample disk_sampler = None \<and> sampler_len disk_sampler = Inl TypeError \<and>
   sampler_iter disk_sampler = Inl TypeError \<and>
   sampler_str no_render disk_sampler = Inr ''None''"
    using fresh_sampler_interfaces[OF disk_sampler_def] by blast
  show ?thesis using a b disk_run_sampler(1) by blast
qed

end
